theory Spec2Isabelle
  imports Complex_Main "HOL-Library.Log_Nat"
begin

section \<open>Automatic unit-merge engine (curation/auto\_merge.py)\<close>

text \<open>
  The engine works on numpy arrays of float64. A float64 is modelled by the
  \<^typ>\<open>real\<close> it denotes, and NaN is written out where the source can produce it
  (a \<^typ>\<open>real option\<close> whose \<open>None\<close> is NaN). The rounding of float64 arithmetic is
  written out in \<open>normalize_correlogram\<close>, \<open>compute_correlogram_diff\<close> and
  \<open>compute_templates_diff\<close>, whose results the statements below give to the last bit; the
  other float computations of the engine (the scores of the validator, the comparisons
  with thresholds, the halving of the adaptive threshold) are on exact reals. Integers
  are \<^typ>\<open>int\<close> or \<^typ>\<open>nat\<close>, a unit is addressed by its index in \<open>unit_ids\<close>.
\<close>

subsection \<open>float64 arithmetic\<close>

text \<open>The nearest integer, a tie going to the even neighbour.\<close>

definition round_half_even :: "real \<Rightarrow> int" where
  "round_half_even x =
     (let f = \<lfloor>x\<rfloor>; d = x - of_int f
      in if d < 1 / 2 then f else if 1 / 2 < d then f + 1 else if even f then f else f + 1)"

text \<open>
  \<open>binade x\<close> is the exponent \<open>e\<close> with \<open>2 ^ e \<le> x < 2 ^ (e + 1)\<close>, for \<open>0 < x\<close>. A float64
  has 53 significant bits: \<open>float64 x\<close> is the multiple of \<open>2 ^ (e - 52)\<close> nearest to \<open>x\<close>,
  a tie going to the even multiple, which is the result of an IEEE 754 operation whose
  exact result is \<open>x\<close>. The range of the exponent is not bounded here: no overflow to an
  infinity, no subnormal numbers.
\<close>

definition binade :: "real \<Rightarrow> int" where
  "binade x = (if 1 \<le> x then bitlen \<lfloor>x\<rfloor> - 1 else - bitlen (\<lceil>1 / x\<rceil> - 1))"

definition pow2 :: "int \<Rightarrow> real" where
  "pow2 k = (if 0 \<le> k then 2 ^ nat k else 1 / 2 ^ nat (- k))"

definition float64 :: "real \<Rightarrow> real" where
  "float64 x =
     (if x = 0 then 0
      else let ulp = pow2 (binade \<bar>x\<bar> - 52)
           in real_of_int (round_half_even (x / ulp)) * ulp)"

definition fl_add :: "real \<Rightarrow> real \<Rightarrow> real" where
  "fl_add a b = float64 (a + b)"

definition fl_sub :: "real \<Rightarrow> real \<Rightarrow> real" where
  "fl_sub a b = float64 (a - b)"

definition fl_mul :: "real \<Rightarrow> real \<Rightarrow> real" where
  "fl_mul a b = float64 (a * b)"

definition fl_div :: "real \<Rightarrow> real \<Rightarrow> real" where
  "fl_div a b = float64 (a / b)"

definition fl_sqrt :: "real \<Rightarrow> real" where
  "fl_sqrt a = float64 (sqrt a)"

text \<open>An integer that enters a float operation is converted first.\<close>

definition to_float64 :: "int \<Rightarrow> real" where
  "to_float64 k = float64 (real_of_int k)"

text \<open>
  \<open>np.sum\<close> of a one-dimensional float64 array adds with numpy's pairwise summation:
  fewer than 8 entries are added from left to right; up to 128 entries go to eight
  running sums (entry \<open>i\<close> to sum \<open>i mod 8\<close>), which are added as a tree, the entries
  after the last full block of 8 being added to the result one by one; a longer array is
  split at \<open>n2 = n // 2 - (n // 2) % 8\<close> and the sums of the two parts are added. The
  reduction adds the result to its initial value 0.
\<close>

function pairwise_sum :: "real list \<Rightarrow> real" where
  "pairwise_sum a =
     (let n = length a in
      if n < 8 then foldl fl_add 0 a
      else if n \<le> 128 then
        let r = foldl (\<lambda>r i. map2 fl_add r (take 8 (drop i a)))
                  (take 8 a) (map (\<lambda>k. 8 * k) [1..<n div 8]);
            res = fl_add (fl_add (fl_add (r ! 0) (r ! 1)) (fl_add (r ! 2) (r ! 3)))
                         (fl_add (fl_add (r ! 4) (r ! 5)) (fl_add (r ! 6) (r ! 7)))
        in foldl fl_add res (drop (8 * (n div 8)) a)
      else
        let n2 = n div 2 - (n div 2) mod 8
        in fl_add (pairwise_sum (take n2 a)) (pairwise_sum (drop n2 a)))"
  by pat_completeness auto
termination
  by (relation "measure length") (auto simp: Let_def)

declare pairwise_sum.simps [simp del]

definition np_sum :: "real list \<Rightarrow> real" where
  "np_sum xs = fl_add 0 (pairwise_sum xs)"

text \<open>
  \<open>np.mean\<close> of a one-dimensional array is \<open>np.sum\<close> divided by the number of entries; the
  mean of the empty array is NaN.
\<close>

definition np_mean :: "real list \<Rightarrow> real option" where
  "np_mean xs = (if xs = [] then None else Some (fl_div (np_sum xs) (real (length xs))))"

subsection \<open>normalize\_correlogram\<close>

text \<open>
  \<^verbatim>\<open>mean = np.mean(correlogram)
  return correlogram if mean == 0 else correlogram / mean\<close>
  For the empty array the mean is NaN, \<open>NaN == 0\<close> is false and the quotient of the
  empty array is the empty array.
\<close>

definition normalize_correlogram :: "real list \<Rightarrow> real list" where
  "normalize_correlogram correlogram =
     (case np_mean correlogram of
        None \<Rightarrow> []
      | Some mean \<Rightarrow> if mean = 0 then correlogram else map (\<lambda>x. fl_div x mean) correlogram)"

subsection \<open>Errors and arrays\<close>

text \<open>The exceptions the engine can raise, as values.\<close>

datatype error =
    AssertionError string
  | UnboundLocalError string
  | AttributeError string
  | TypeError string
  | IndexError
  | ValueError string
  | OverflowError
  | RecursionError

text \<open>A list of computations run in order: the first one that raises ends the run.\<close>

fun sequence_errors :: "(error + 'a) list \<Rightarrow> error + 'a list" where
  "sequence_errors [] = Inr []"
| "sequence_errors (x # xs) =
     (case x of
        Inl e \<Rightarrow> Inl e
      | Inr v \<Rightarrow> (case sequence_errors xs of Inl e \<Rightarrow> Inl e | Inr vs \<Rightarrow> Inr (v # vs)))"

text \<open>
  Python's built-in \<open>round\<close> on a float rounds a tie to the even neighbour.
\<close>

definition py_round :: "real \<Rightarrow> int" where
  "py_round x = round_half_even x"

text \<open>
  \<open>a[inds]\<close> for an integer index array: a negative index counts from the end, an index
  outside \<open>[-len, len)\<close> raises IndexError.
\<close>

definition np_index :: "real list \<Rightarrow> int \<Rightarrow> error + real" where
  "np_index xs i =
     (if 0 \<le> i \<and> i < int (length xs) then Inr (xs ! nat i)
      else if i < 0 \<and> - int (length xs) \<le> i then Inr (xs ! nat (int (length xs) + i))
      else Inl IndexError)"

definition np_take :: "real list \<Rightarrow> int list \<Rightarrow> error + real list" where
  "np_take xs inds = sequence_errors (map (np_index xs) inds)"

text \<open>\<open>np.sum(np.abs(a - b))\<close> for two arrays of one length.\<close>

definition sum_abs_diff :: "real list \<Rightarrow> real list \<Rightarrow> real" where
  "sum_abs_diff a b = np_sum (map2 (\<lambda>x y. \<bar>fl_sub x y\<bar>) a b)"

subsection \<open>The candidate matrix\<close>

type_synonym mask = "bool list list"

text \<open>
  \<open>np.triu(np.arange(n))\<close>: the one-dimensional \<open>arange(n)\<close> is broadcast along the rows,
  so entry \<open>(i, j)\<close> is \<open>j\<close> on and above the diagonal and \<open>0\<close> below it.
\<close>

definition np_triu_arange :: "nat \<Rightarrow> int list list" where
  "np_triu_arange n = map (\<lambda>i. map (\<lambda>j. if j < i then 0 else int j) [0..<n]) [0..<n]"

definition initial_pair_mask :: "nat \<Rightarrow> mask" where
  "initial_pair_mask n = map (map (\<lambda>v. 0 < v)) (np_triu_arange n)"

text \<open>\<open>pair_mask & other\<close>, the other matrix given by its entries.\<close>

definition mask_and :: "mask \<Rightarrow> (nat \<Rightarrow> nat \<Rightarrow> bool) \<Rightarrow> mask" where
  "mask_and m p =
     map (\<lambda>i. map (\<lambda>j. m ! i ! j \<and> p i j) [0..<length (m ! i)]) [0..<length m]"

text \<open>\<open>pair_mask[to_remove, :] = False\<close> and \<open>pair_mask[:, to_remove] = False\<close>.\<close>

definition clear_rows :: "(nat \<Rightarrow> bool) \<Rightarrow> mask \<Rightarrow> mask" where
  "clear_rows to_remove m =
     map (\<lambda>i. if to_remove i then replicate (length (m ! i)) False else m ! i) [0..<length m]"

definition clear_cols :: "(nat \<Rightarrow> bool) \<Rightarrow> mask \<Rightarrow> mask" where
  "clear_cols to_remove m =
     map (\<lambda>i. map (\<lambda>j. if to_remove j then False else m ! i ! j) [0..<length (m ! i)])
       [0..<length m]"

text \<open>\<open>np.nonzero(pair_mask)\<close>: the True positions in row-major order.\<close>

definition np_nonzero :: "mask \<Rightarrow> (nat \<times> nat) list" where
  "np_nonzero m =
     concat (map (\<lambda>i. map (\<lambda>j. (i, j)) (filter (\<lambda>j. m ! i ! j) [0..<length (m ! i)]))
       [0..<length m])"

text \<open>The number of True entries.\<close>

definition count_true :: "mask \<Rightarrow> nat" where
  "count_true m = sum_list (map (\<lambda>row. length (filter (\<lambda>b. b) row)) m)"

subsection \<open>get\_unit\_adaptive\_window\<close>

text \<open>
  \<^verbatim>\<open>if np.sum(np.abs(auto_corr)) == 0: return 20.0
  derivative_2 = -np.gradient(np.gradient(auto_corr))
  peaks = scipy.signal.find_peaks(derivative_2)[0]
  keep = auto_corr[peaks] >= threshold;  peaks = peaks[keep]
  keep = peaks < (auto_corr.shape[0] // 2);  peaks = peaks[keep]
  if peaks.size == 0:
      return get_unit_adaptive_window(auto_corr, threshold / 2)
  win_size = auto_corr.shape[0] // 2 - peaks[-1]\<close>
  The peak finder is library code: \<open>find_peaks_d2 auto_corr\<close> stands for
  \<open>find_peaks(-gradient(gradient(auto_corr)))[0]\<close>, increasing indices into \<open>auto_corr\<close>.
  The recursion has no bound in the source, so a call that never returns is \<open>None\<close>.
  The fallback \<open>20.0\<close> is stored by the caller into an integer array.
\<close>

partial_function (option) get_unit_adaptive_window ::
  "(real list \<Rightarrow> nat list) \<Rightarrow> real list \<Rightarrow> real \<Rightarrow> int option" where
  "get_unit_adaptive_window find_peaks_d2 auto_corr threshold =
     (if sum_list (map abs auto_corr) = 0 then Some 20
      else
        let peaks = find_peaks_d2 auto_corr;
            peaks = filter (\<lambda>p. threshold \<le> auto_corr ! p) peaks;
            peaks = filter (\<lambda>p. p < length auto_corr div 2) peaks
        in if peaks = []
           then get_unit_adaptive_window find_peaks_d2 auto_corr (threshold / 2)
           else Some (int (length auto_corr div 2) - int (last peaks)))"

subsection \<open>compute\_correlogram\_diff\<close>

text \<open>
  The body of the pair loop. \<open>correlograms_smoothed u v\<close> is
  \<open>correlograms_smoothed[u, v, :]\<close>; the number of bins is the length of each of these.
  The spike counts and the windows are integers; their quotient and the products with
  the float differences are float operations. A division of floats by zero gives NaN or
  an infinity, which \<open>int(round(...))\<close> refuses; a mean over an empty index range is
  \<open>0.0 / 0\<close>, NaN (\<open>None\<close>).
\<close>

definition correlogram_pair_diff ::
  "(nat \<Rightarrow> int) \<Rightarrow> (nat \<Rightarrow> nat \<Rightarrow> real list) \<Rightarrow> (nat \<Rightarrow> int) \<Rightarrow> nat \<Rightarrow> nat
     \<Rightarrow> error + real option" where
  "correlogram_pair_diff num_spikes correlograms_smoothed win_sizes unit_ind1 unit_ind2 =
     (let m = int (length (correlograms_smoothed unit_ind1 unit_ind2)) div 2;
          num1 = num_spikes unit_ind1;
          num2 = num_spikes unit_ind2;
          weighted = num1 * win_sizes unit_ind1 + num2 * win_sizes unit_ind2
      in if num1 + num2 = 0
         then Inl (if weighted = 0 then ValueError ''cannot convert float NaN to integer''
                   else OverflowError)
         else
           let win_size = py_round (fl_div (to_float64 weighted) (to_float64 (num1 + num2)));
               corr_inds = [m - win_size .. m + win_size - 1];
               auto_corr1 = normalize_correlogram (correlograms_smoothed unit_ind1 unit_ind1);
               auto_corr2 = normalize_correlogram (correlograms_smoothed unit_ind2 unit_ind2);
               cross_corr = normalize_correlogram (correlograms_smoothed unit_ind1 unit_ind2)
           in case np_take cross_corr corr_inds of
                Inl e \<Rightarrow> Inl e
              | Inr cc \<Rightarrow>
                 (case np_take auto_corr1 corr_inds of
                    Inl e \<Rightarrow> Inl e
                  | Inr ac1 \<Rightarrow>
                     (case np_take auto_corr2 corr_inds of
                        Inl e \<Rightarrow> Inl e
                      | Inr ac2 \<Rightarrow>
                          if corr_inds = [] then Inr None
                          else
                            let diff1 = fl_div (sum_abs_diff cc ac1) (real (length corr_inds));
                                diff2 = fl_div (sum_abs_diff cc ac2) (real (length corr_inds));
                                w_diff = fl_div (fl_add (fl_mul (to_float64 num1) diff1)
                                                        (fl_mul (to_float64 num2) diff2))
                                           (to_float64 (num1 + num2))
                            in Inr (Some w_diff))))"

text \<open>
  The double loop over \<open>unit_ind1 < unit_ind2\<close>, in its order; every entry the loop
  skips keeps the NaN the matrix was filled with.
\<close>

definition compute_correlogram_diff ::
  "nat \<Rightarrow> (nat \<Rightarrow> int) \<Rightarrow> (nat \<Rightarrow> nat \<Rightarrow> real list) \<Rightarrow> (nat \<Rightarrow> int) \<Rightarrow> mask
     \<Rightarrow> error + real option list list" where
  "compute_correlogram_diff n num_spikes correlograms_smoothed win_sizes pair_mask =
     sequence_errors (map (\<lambda>unit_ind1.
       sequence_errors (map (\<lambda>unit_ind2.
         if unit_ind1 < unit_ind2 \<and> pair_mask ! unit_ind1 ! unit_ind2
         then correlogram_pair_diff num_spikes correlograms_smoothed win_sizes unit_ind1 unit_ind2
         else Inr None) [0..<n])) [0..<n])"

text \<open>\<open>matrix < thresh\<close> at one entry: a comparison with NaN is false.\<close>

definition nan_less :: "real option \<Rightarrow> real \<Rightarrow> bool" where
  "nan_less v t = (case v of None \<Rightarrow> False | Some x \<Rightarrow> x < t)"

subsection \<open>compute\_templates\_diff\<close>

text \<open>A template is a two-dimensional array, samples by channels, with at least one channel.\<close>

type_synonym template = "real list list"

text \<open>Python's \<open>xs[start:stop]\<close> and \<open>xs[:k]\<close>, where \<open>k\<close> may be None.\<close>

definition py_slice :: "int \<Rightarrow> int \<Rightarrow> 'a list \<Rightarrow> 'a list" where
  "py_slice start stop xs =
     (let n = int (length xs);
          a = (if start < 0 then max (start + n) 0 else min start n);
          b = (if stop < 0 then max (stop + n) 0 else min stop n)
      in take (nat (b - a)) (drop (nat a) xs))"

definition py_prefix :: "int option \<Rightarrow> 'a list \<Rightarrow> 'a list" where
  "py_prefix k xs = (case k of None \<Rightarrow> xs | Some j \<Rightarrow> py_slice 0 j xs)"

text \<open>\<open>np.max\<close> of a non-empty one-dimensional array.\<close>

definition max_list :: "real list \<Rightarrow> real" where
  "max_list xs = fold max (tl xs) (hd xs)"

text \<open>
  \<open>np.min\<close> of the list of shift distances: it raises on the empty list, and is NaN as
  soon as one entry is NaN.
\<close>

definition nan_min :: "real option \<Rightarrow> real option \<Rightarrow> real option" where
  "nan_min a b =
     (case a of None \<Rightarrow> None | Some x \<Rightarrow> (case b of None \<Rightarrow> None | Some y \<Rightarrow> Some (min x y)))"

definition np_min :: "real option list \<Rightarrow> error + real option" where
  "np_min ds =
     (case ds of
        [] \<Rightarrow> Inl (ValueError ''zero-size array to reduction operation minimum which has no identity'')
      | d # rest \<Rightarrow> Inr (fold nan_min rest d))"

text \<open>
  A quotient by the norm. The norm is zero only when a template vanishes on the chosen
  channels, where every numerator is zero as well and the float quotient is NaN.
\<close>

definition np_divide :: "real \<Rightarrow> real \<Rightarrow> real option" where
  "np_divide a b = (if b = 0 then None else Some (fl_div a b))"

text \<open>
  \<open>np.sum(f(t))\<close> over all entries of a two-dimensional array, and the Frobenius norm
  \<open>np.linalg.norm(t)\<close>, the square root of the dot product of the flattened array with
  itself. The order in which numpy adds the entries of a two-dimensional array depends
  on its memory layout, and the dot product is left to BLAS; the roundings of the partial
  sums are therefore not written out: the exact sum is rounded once.
\<close>

definition sum_entries :: "(real \<Rightarrow> real) \<Rightarrow> template \<Rightarrow> real" where
  "sum_entries f t = float64 (sum_list (map (\<lambda>row. sum_list (map f row)) t))"

definition linalg_norm :: "template \<Rightarrow> real" where
  "linalg_norm t = fl_sqrt (sum_entries (\<lambda>x. x * x) t)"

text \<open>
  An elementwise operation on two arrays with the same number of columns: numpy
  broadcasts along the rows when one side has exactly one row and raises when the row
  counts differ otherwise.
\<close>

definition np_binop :: "(real \<Rightarrow> real \<Rightarrow> real) \<Rightarrow> template \<Rightarrow> template \<Rightarrow> error + template" where
  "np_binop f a b =
     (if length a = length b then Inr (map2 (map2 f) a b)
      else if length a = 1 then Inr (map (map2 f (hd a)) b)
      else if length b = 1 then Inr (map (\<lambda>r. map2 f r (hd b)) a)
      else Inl (ValueError ''operands could not be broadcast together''))"

text \<open>
  \<^verbatim>\<open>chan_inds = np.argsort(np.max(np.abs(template1 + template2), axis=0))[::-1][:num_channels]\<close>
  The order numpy gives to equal amplitudes is not specified; a stable sort stands for it.
\<close>

definition select_best_channels :: "int option \<Rightarrow> template \<Rightarrow> template \<Rightarrow> error + nat list" where
  "select_best_channels num_channels template1 template2 =
     (if template1 = []
      then Inl (ValueError ''zero-size array to reduction operation maximum which has no identity'')
      else
        let amplitude = (\<lambda>c. max_list (map2 (\<lambda>r1 r2. \<bar>fl_add (r1 ! c) (r2 ! c)\<bar>) template1 template2))
        in Inr (py_prefix num_channels
                  (rev (sort_key amplitude [0..<length (hd template1)]))))"

text \<open>\<open>np.flatnonzero(sparsity_mask[unit_ind1] * sparsity_mask[unit_ind2])\<close>.\<close>

definition common_channels :: "bool list \<Rightarrow> bool list \<Rightarrow> nat list" where
  "common_channels mask1 mask2 = filter (\<lambda>c. mask1 ! c \<and> mask2 ! c) [0..<length mask1]"

text \<open>\<open>template[:, chan_inds]\<close>.\<close>

definition take_channels :: "nat list \<Rightarrow> template \<Rightarrow> template" where
  "take_channels chan_inds t = map (\<lambda>row. map (\<lambda>c. row ! c) chan_inds) t"

text \<open>The normalisation, computed on the whole (uncropped) templates.\<close>

definition template_norm :: "string \<Rightarrow> template \<Rightarrow> template \<Rightarrow> error + real" where
  "template_norm template_metric template1 template2 =
     (if template_metric = ''l1''
        then Inr (fl_add (sum_entries abs template1) (sum_entries abs template2))
      else if template_metric = ''l2''
        then Inr (fl_add (sum_entries (\<lambda>x. fl_mul x x) template1)
                         (sum_entries (\<lambda>x. fl_mul x x) template2))
      else if template_metric = ''cosine''
        then Inr (fl_mul (linalg_norm template1) (linalg_norm template2))
      else Inl (UnboundLocalError ''norm''))"

text \<open>
  The body of the loop over shifts:
  \<^verbatim>\<open>temp1 = template1[num_shift : num_samples - num_shift, :]
  temp2 = template2[num_shift + shift : num_samples - num_shift + shift, :]\<close>
  followed by the distance of the chosen metric.
\<close>

definition shift_diff ::
  "string \<Rightarrow> int \<Rightarrow> template \<Rightarrow> template \<Rightarrow> real \<Rightarrow> int \<Rightarrow> error + real option" where
  "shift_diff template_metric num_shift template1 template2 nrm shift =
     (let num_samples = int (length template1);
          temp1 = py_slice num_shift (num_samples - num_shift) template1;
          temp2 = py_slice (num_shift + shift) (num_samples - num_shift + shift) template2
      in if template_metric = ''l1''
         then (case np_binop fl_sub temp1 temp2 of
                 Inl e \<Rightarrow> Inl e
               | Inr df \<Rightarrow> Inr (np_divide (sum_entries abs df) nrm))
         else if template_metric = ''l2''
         then (case np_binop fl_sub temp1 temp2 of
                 Inl e \<Rightarrow> Inl e
               | Inr df \<Rightarrow> Inr (np_divide (linalg_norm df) nrm))
         else if template_metric = ''cosine''
         then (case np_binop fl_mul temp1 temp2 of
                 Inl e \<Rightarrow> Inl e
               | Inr pr \<Rightarrow>
                   Inr (map_option (fl_sub 1) (np_divide (sum_entries (\<lambda>x. x) pr) nrm)))
         else Inl (UnboundLocalError ''d''))"

text \<open>
  The channels of a pair. The sparsity masks are used only when a sparsity is given and
  \<open>num_channels\<close> is None (\<open>adaptative_masks = num_channels == None\<close>).
\<close>

definition choose_channels ::
  "int option \<Rightarrow> (nat \<Rightarrow> bool list) option \<Rightarrow> template \<Rightarrow> template \<Rightarrow> nat \<Rightarrow> nat
     \<Rightarrow> error + nat list" where
  "choose_channels num_channels sparsity template1 template2 unit_ind1 unit_ind2 =
     (case sparsity of
        None \<Rightarrow> select_best_channels num_channels template1 template2
      | Some sparsity_mask \<Rightarrow>
          if num_channels = None
          then Inr (common_channels (sparsity_mask unit_ind1) (sparsity_mask unit_ind2))
          else select_best_channels num_channels template1 template2)"

text \<open>The body of the pair loop.\<close>

definition template_pair_diff ::
  "string \<Rightarrow> int option \<Rightarrow> int \<Rightarrow> (nat \<Rightarrow> bool list) option \<Rightarrow> (nat \<Rightarrow> template)
     \<Rightarrow> nat \<Rightarrow> nat \<Rightarrow> error + real option" where
  "template_pair_diff template_metric num_channels num_shift sparsity templates_array
       unit_ind1 unit_ind2 =
     (let all_shifts = [- num_shift .. num_shift];
          template1 = templates_array unit_ind1;
          template2 = templates_array unit_ind2
      in case choose_channels num_channels sparsity template1 template2 unit_ind1 unit_ind2 of
           Inl e \<Rightarrow> Inl e
         | Inr chan_inds \<Rightarrow>
            (case (if chan_inds \<noteq> []
                   then
                     let template1 = take_channels chan_inds template1;
                         template2 = take_channels chan_inds template2
                     in case template_norm template_metric template1 template2 of
                          Inl e \<Rightarrow> Inl e
                        | Inr nrm \<Rightarrow>
                            sequence_errors
                              (map (shift_diff template_metric num_shift template1 template2 nrm)
                                 all_shifts)
                   else Inr (replicate (length all_shifts) (Some 1))) of
               Inl e \<Rightarrow> Inl e
             | Inr all_shift_diff \<Rightarrow> np_min all_shift_diff))"

definition compute_templates_diff ::
  "nat \<Rightarrow> (nat \<Rightarrow> template) \<Rightarrow> int option \<Rightarrow> int \<Rightarrow> mask \<Rightarrow> string \<Rightarrow> (nat \<Rightarrow> bool list) option
     \<Rightarrow> error + real option list list" where
  "compute_templates_diff n templates_array num_channels num_shift pair_mask template_metric
       sparsity =
     (if template_metric \<notin> set [''l1'', ''l2'', ''cosine'']
      then Inl (AssertionError ''Not a valid metric!'')
      else
        sequence_errors (map (\<lambda>unit_ind1.
          sequence_errors (map (\<lambda>unit_ind2.
            if unit_ind1 < unit_ind2 \<and> pair_mask ! unit_ind1 ! unit_ind2
            then template_pair_diff template_metric num_channels num_shift sparsity
                   templates_array unit_ind1 unit_ind2
            else Inr None) [0..<n])) [0..<n]))"

subsection \<open>The analyzer\<close>

text \<open>
  The sorting analyzer is an external collaborator. What the engine asks of it is taken
  as given, addressed by unit index: spike counts, refractory-period contaminations,
  firing rates, the statistics of the unit a pair would merge into, the pairwise distances
  of the unit locations, the smoothed correlograms, the library peak finder, the optional
  extensions, the neighbour units the nearest-neighbour tree reports for a unit (None
  when the spike location or amplitude extension is absent), the presence distances
  and the p-values of the cross-contamination test.
\<close>

type_synonym unit_id = nat

record analyzer =
  unit_ids :: "unit_id list"
  count_num_spikes_per_unit :: "nat \<Rightarrow> int"
  compute_refrac_period_violations :: "nat \<Rightarrow> real"
  compute_firing_rates :: "nat \<Rightarrow> real"
  merged_contamination :: "nat \<Rightarrow> nat \<Rightarrow> real"
  merged_firing_rate :: "nat \<Rightarrow> nat \<Rightarrow> real"
  unit_distances :: "nat \<Rightarrow> nat \<Rightarrow> real"
  correlograms_smoothed :: "nat \<Rightarrow> nat \<Rightarrow> real list"
  find_peaks_d2 :: "real list \<Rightarrow> nat list"
  template_similarity_ext :: "(nat \<Rightarrow> nat \<Rightarrow> real) option"
  templates_ext :: "(nat \<Rightarrow> template) option"
  sparsity :: "(nat \<Rightarrow> bool list) option"
  nn_best_units :: "(nat \<Rightarrow> nat list) option"
  compute_presence_distance :: "mask \<Rightarrow> nat \<Rightarrow> nat \<Rightarrow> real"
  estimate_cross_contamination :: "nat \<Rightarrow> nat \<Rightarrow> real"

subsection \<open>check\_improve\_contaminations\_score\<close>

text \<open>
  The loop over \<open>np.nonzero(pair_mask)\<close>, on a copy of the matrix:
  \<^verbatim>\<open>score_1 = f_1 * (1 - (k + 1) * c_1)
  score_2 = f_2 * (1 - (k + 1) * c_2)
  score_new = f_new * (1 - (k + 1) * c_new)
  if score_new < score_1 or score_new < score_2:
      pair_mask[ind1, ind2] = False
      pairs_removed.append((sorting.unit_ids[ind1], sorting.unit_ids[ind2]))\<close>
\<close>

fun check_pairs ::
  "analyzer \<Rightarrow> (nat \<Rightarrow> real) \<Rightarrow> real \<Rightarrow> (nat \<times> nat) list
     \<Rightarrow> mask \<times> (unit_id \<times> unit_id) list \<Rightarrow> mask \<times> (unit_id \<times> unit_id) list" where
  "check_pairs a contams k [] acc = acc"
| "check_pairs a contams k ((ind1, ind2) # rest) (pm, pairs_removed) =
     (let c_1 = contams ind1;
          c_2 = contams ind2;
          f_1 = compute_firing_rates a ind1;
          f_2 = compute_firing_rates a ind2;
          c_new = merged_contamination a ind1 ind2;
          f_new = merged_firing_rate a ind1 ind2;
          score_1 = f_1 * (1 - (k + 1) * c_1);
          score_2 = f_2 * (1 - (k + 1) * c_2);
          score_new = f_new * (1 - (k + 1) * c_new)
      in if score_new < score_1 \<or> score_new < score_2
         then check_pairs a contams k rest
                (pm[ind1 := (pm ! ind1)[ind2 := False]],
                 pairs_removed @ [(unit_ids a ! ind1, unit_ids a ! ind2)])
         else check_pairs a contams k rest (pm, pairs_removed))"

definition check_improve_contaminations_score ::
  "analyzer \<Rightarrow> mask \<Rightarrow> (nat \<Rightarrow> real) \<Rightarrow> real \<Rightarrow> mask \<times> (unit_id \<times> unit_id) list" where
  "check_improve_contaminations_score a pm contams firing_contamination_balance =
     check_pairs a contams firing_contamination_balance (np_nonzero pm) (pm, [])"

subsection \<open>get\_pairs\_via\_nntree\<close>

text \<open>
  \<^verbatim>\<open>pair_mask[unit_ind] &= np.isin(np.arange(n), chan_inds[best_indices])\<close>
  for every unit, on the \<open>n\<close> by \<open>n\<close> matrix it is given; reading an absent extension
  is an attribute access on None.
\<close>

definition get_pairs_via_nntree :: "analyzer \<Rightarrow> mask \<Rightarrow> error + mask" where
  "get_pairs_via_nntree a pm =
     (case nn_best_units a of
        None \<Rightarrow> Inl (AttributeError ''NoneType object has no attribute get_data'')
      | Some best \<Rightarrow> Inr (mask_and pm (\<lambda>unit_ind j. j \<in> set (best unit_ind))))"

subsection \<open>get\_potential\_auto\_merge\<close>

record params =
  minimum_spikes :: int
  maximum_distance_um :: real
  corr_diff_thresh :: real
  template_diff_thresh :: real
  contamination_threshold :: real
  adaptative_window_threshold :: real
  num_channels :: "int option"
  num_shift :: int
  firing_contamination_balance :: real
  extra_outputs :: bool
  steps :: "string list option"
  presence_distance_thresh :: real
  preset :: "string option"
  template_metric :: string
  p_value :: real

text \<open>
  The values of the diagnostics dictionary \<open>outs\<close>. \<open>Opaque\<close> stands for an array the
  model does not follow (the raw correlograms, the bins); of the pair \<open>(CC, p_values)\<close>
  only the p-values are kept.
\<close>

datatype diag =
    RealMatrix "nat \<Rightarrow> nat \<Rightarrow> real"
  | ScoreMatrix "nat \<Rightarrow> nat \<Rightarrow> real option"
  | Correlograms "nat \<Rightarrow> nat \<Rightarrow> real list"
  | WinSizes "int list"
  | PairList "(unit_id \<times> unit_id) list"
  | Opaque

text \<open>
  The local variables of the stage loop. \<open>contaminations\<close> is bound by the
  \<open>remove_contaminated\<close> stage only, so it is None until that stage has run.
  \<open>executed\<close> is not in the source: it lists the stages whose computation has run.
\<close>

record state =
  pair_mask :: mask
  contaminations :: "(nat \<Rightarrow> real) option"
  outs :: "string \<rightharpoonup> diag"
  executed :: "string list"

definition all_steps :: "string list" where
  "all_steps =
     [''min_spikes'', ''remove_contaminated'', ''unit_positions'', ''correlogram'',
      ''template_similarity'', ''presence_distance'', ''knn'', ''cross_contamination'',
      ''check_increase_score'']"

text \<open>The stage list when \<open>steps\<close> is None; an unknown preset leaves it None.\<close>

definition preset_steps :: "string option \<Rightarrow> string list option" where
  "preset_steps pr =
     (case pr of
        None \<Rightarrow>
          Some [''min_spikes'', ''remove_contaminated'', ''unit_positions'',
                ''template_similarity'', ''correlogram'', ''check_increase_score'']
      | Some name \<Rightarrow>
          if name = ''temporal_splits''
          then Some [''min_spikes'', ''remove_contaminated'', ''unit_positions'',
                     ''template_similarity'', ''correlogram'', ''presence_distance'',
                     ''check_increase_score'']
          else if name = ''lussac''
          then Some [''min_spikes'', ''remove_contaminated'', ''unit_positions'',
                     ''template_similarity'', ''cross_contamination'', ''check_increase_score'']
          else if name = ''knn''
          then Some [''min_spikes'', ''remove_contaminated'', ''unit_positions'', ''knn'',
                     ''correlogram'', ''check_increase_score'']
          else None)"

text \<open>The adaptive window of every unit, in unit order (the loop of the correlogram stage).\<close>

definition compute_win_sizes :: "analyzer \<Rightarrow> real \<Rightarrow> nat \<Rightarrow> error + int list" where
  "compute_win_sizes a window_threshold n =
     sequence_errors (map (\<lambda>unit_ind.
       let auto_corr = correlograms_smoothed a unit_ind unit_ind
       in if auto_corr = []
          then Inl (ValueError ''zero-size array to reduction operation maximum which has no identity'')
          else (case get_unit_adaptive_window (find_peaks_d2 a) auto_corr
                       (max_list auto_corr * window_threshold) of
                  None \<Rightarrow> Inl RecursionError
                | Some win_size \<Rightarrow> Inr win_size)) [0..<n])"

text \<open>
  One pass of the loop body after the assertion. A test such as
  \<open>step == "unit_positions" in steps\<close> is Python's chained comparison:
  \<open>step == "unit_positions" and "unit_positions" in steps\<close>.
\<close>

definition run_step :: "analyzer \<Rightarrow> params \<Rightarrow> string list \<Rightarrow> string \<Rightarrow> state \<Rightarrow> error + state" where
  "run_step a p stps step s0 =
     (let n = length (unit_ids a); s = s0\<lparr>executed := executed s0 @ [step]\<rparr>
      in
      if step = ''min_spikes'' then
        let to_remove = (\<lambda>i. count_num_spikes_per_unit a i < minimum_spikes p)
        in Inr (s\<lparr>pair_mask := clear_cols to_remove (clear_rows to_remove (pair_mask s))\<rparr>)
      else if step = ''remove_contaminated'' then
        let contams = compute_refrac_period_violations a;
            to_remove = (\<lambda>i. contamination_threshold p < contams i)
        in Inr (s\<lparr>pair_mask := clear_cols to_remove (clear_rows to_remove (pair_mask s)),
                  contaminations := Some contams\<rparr>)
      else if step = ''unit_positions'' \<and> ''unit_positions'' \<in> set stps then
        Inr (s\<lparr>pair_mask :=
                  mask_and (pair_mask s) (\<lambda>i j. unit_distances a i j \<le> maximum_distance_um p),
               outs := (outs s)(''unit_distances'' \<mapsto> RealMatrix (unit_distances a))\<rparr>)
      else if step = ''correlogram'' \<and> ''correlogram'' \<in> set stps then
        (case compute_win_sizes a (adaptative_window_threshold p) n of
           Inl e \<Rightarrow> Inl e
         | Inr win_sizes \<Rightarrow>
            (case compute_correlogram_diff n (count_num_spikes_per_unit a)
                    (correlograms_smoothed a) (\<lambda>u. win_sizes ! u) (pair_mask s) of
               Inl e \<Rightarrow> Inl e
             | Inr correlogram_diff \<Rightarrow>
                 Inr (s\<lparr>pair_mask :=
                          mask_and (pair_mask s)
                            (\<lambda>i j. nan_less (correlogram_diff ! i ! j) (corr_diff_thresh p)),
                        outs := (outs s)
                          (''correlograms'' \<mapsto> Opaque,
                           ''bins'' \<mapsto> Opaque,
                           ''correlograms_smoothed'' \<mapsto> Correlograms (correlograms_smoothed a),
                           ''correlogram_diff'' \<mapsto> ScoreMatrix (\<lambda>i j. correlogram_diff ! i ! j),
                           ''win_sizes'' \<mapsto> WinSizes win_sizes)\<rparr>)))
      else if step = ''template_similarity'' \<and> ''template_similarity'' \<in> set stps then
        (case (case template_similarity_ext a of
                 Some templates_similarity \<Rightarrow> Inr (\<lambda>i j. Some (1 - templates_similarity i j))
               | None \<Rightarrow>
                  (case templates_ext a of
                     None \<Rightarrow> Inl (AssertionError
                       ''auto_merge with template_similarity requires a SortingAnalyzer with extension templates'')
                   | Some templates_array \<Rightarrow>
                      (case compute_templates_diff n templates_array (num_channels p) (num_shift p)
                              (pair_mask s) (template_metric p) (sparsity a) of
                         Inl e \<Rightarrow> Inl e
                       | Inr td \<Rightarrow> Inr (\<lambda>i j. td ! i ! j)))) of
           Inl e \<Rightarrow> Inl e
         | Inr templates_diff \<Rightarrow>
             Inr (s\<lparr>pair_mask :=
                      mask_and (pair_mask s)
                        (\<lambda>i j. nan_less (templates_diff i j) (template_diff_thresh p)),
                    outs := (outs s)(''templates_diff'' \<mapsto> ScoreMatrix templates_diff)\<rparr>))
      else if step = ''knn'' \<and> ''knn'' \<in> set stps then
        (case get_pairs_via_nntree a (pair_mask s) of
           Inl e \<Rightarrow> Inl e
         | Inr pm \<Rightarrow> Inr (s\<lparr>pair_mask := pm\<rparr>))
      else if step = ''presence_distance'' \<and> ''presence_distance'' \<in> set stps then
        let presence_distances = compute_presence_distance a (pair_mask s)
        in Inr (s\<lparr>pair_mask :=
                    mask_and (pair_mask s)
                      (\<lambda>i j. presence_distance_thresh p < presence_distances i j),
                  outs := (outs s)(''presence_distances'' \<mapsto> RealMatrix presence_distances)\<rparr>)
      else if step = ''cross_contamination'' \<and> ''cross_contamination'' \<in> set stps then
        let p_values = (\<lambda>i j. if i < j \<and> j < n \<and> pair_mask s ! i ! j
                               then estimate_cross_contamination a i j else 0)
        in Inr (s\<lparr>pair_mask := mask_and (pair_mask s) (\<lambda>i j. p_value p < p_values i j),
                  outs := (outs s)(''cross_contaminations'' \<mapsto> RealMatrix p_values)\<rparr>)
      else if step = ''check_increase_score'' \<and> ''check_increase_score'' \<in> set stps then
        (case contaminations s of
           None \<Rightarrow> Inl (UnboundLocalError ''contaminations'')
         | Some contams \<Rightarrow>
            (case check_improve_contaminations_score a (pair_mask s) contams
                    (firing_contamination_balance p) of
               (pm, pairs_decreased_score) \<Rightarrow>
                 Inr (s\<lparr>pair_mask := pm,
                        outs := (outs s)
                          (''pairs_decreased_score'' \<mapsto> PairList pairs_decreased_score)\<rparr>)))
      else Inr s0)"

text \<open>
  The loop \<open>for step in steps\<close>: the assertion on the stage name is the first statement
  of the loop body. A run that raises is \<open>Inl\<close> of the exception and of the local state
  at that moment.
\<close>

fun run_steps ::
  "analyzer \<Rightarrow> params \<Rightarrow> string list \<Rightarrow> string list \<Rightarrow> state \<Rightarrow> error \<times> state + state" where
  "run_steps a p stps [] s = Inr s"
| "run_steps a p stps (step # rest) s =
     (if step \<notin> set all_steps then Inl (AssertionError (step @ '' is not a valid step''), s)
      else (case run_step a p stps step s of
              Inl e \<Rightarrow> Inl (e, s)
            | Inr s' \<Rightarrow> run_steps a p stps rest s'))"

definition initial_state :: "analyzer \<Rightarrow> state" where
  "initial_state a =
     \<lparr>pair_mask = initial_pair_mask (length (unit_ids a)), contaminations = None,
      outs = Map.empty, executed = []\<rparr>"

text \<open>The final step: \<open>list(zip(unit_ids[ind1], unit_ids[ind2]))\<close> over the True entries.\<close>

definition potential_merges :: "analyzer \<Rightarrow> mask \<Rightarrow> (unit_id \<times> unit_id) list" where
  "potential_merges a pm = map (\<lambda>(ind1, ind2). (unit_ids a ! ind1, unit_ids a ! ind2)) (np_nonzero pm)"

definition get_potential_auto_merge ::
  "analyzer \<Rightarrow> params
     \<Rightarrow> error \<times> state + (unit_id \<times> unit_id) list \<times> (string \<rightharpoonup> diag) option" where
  "get_potential_auto_merge a p =
     (case (case steps p of None \<Rightarrow> preset_steps (preset p) | Some given \<Rightarrow> Some given) of
        None \<Rightarrow> Inl (TypeError ''NoneType object is not iterable'', initial_state a)
      | Some stps \<Rightarrow>
         (case run_steps a p stps stps (initial_state a) of
            Inl failure \<Rightarrow> Inl failure
          | Inr s \<Rightarrow>
              Inr (potential_merges a (pair_mask s),
                   if extra_outputs p then Some (outs s) else None)))"

subsection \<open>Auxiliary notions for the statements\<close>

text \<open>
  \<open>mask_le m' m\<close>: the two matrices have one shape and every True entry of \<open>m'\<close> is True
  in \<open>m\<close>, that is, going from \<open>m\<close> to \<open>m'\<close> only clears entries.
\<close>

definition mask_le :: "mask \<Rightarrow> mask \<Rightarrow> bool" where
  "mask_le m' m = list_all2 (list_all2 (\<lambda>b' b. b' \<longrightarrow> b)) m' m"

text \<open>
  The quality score in the words of the specification, and the rejection test of a pair:
  the merged unit scores strictly lower than one of the two units.
\<close>

definition spec_quality_score :: "real \<Rightarrow> real \<Rightarrow> real \<Rightarrow> real" where
  "spec_quality_score k firing_rate contamination = firing_rate * (1 - (k + 1) * contamination)"

definition spec_rejects :: "analyzer \<Rightarrow> (nat \<Rightarrow> real) \<Rightarrow> real \<Rightarrow> nat \<times> nat \<Rightarrow> bool" where
  "spec_rejects a contams k pair =
     (case pair of (i, j) \<Rightarrow>
        spec_quality_score k (merged_firing_rate a i j) (merged_contamination a i j)
          < spec_quality_score k (compute_firing_rates a i) (contams i)
        \<or> spec_quality_score k (merged_firing_rate a i j) (merged_contamination a i j)
          < spec_quality_score k (compute_firing_rates a j) (contams j))"

text \<open>
  The correlogram difference in the words of the specification, the arithmetic being
  that of float64. The integer nearest to \<open>x\<close> is \<open>round x\<close>, which rounds a tie upwards;
  the even neighbour is then the one below. A normalized correlogram is the correlogram
  divided by its mean, and the correlogram itself when the mean is zero. The window of a
  pair is the spike-count-weighted average of the two windows, rounded; the difference of
  one side is the mean absolute difference over the bins \<open>m - w, \<dots>, m + w - 1\<close> around
  the centre bin \<open>m\<close>; the two sides are averaged with the spike counts as weights.
\<close>

definition spec_round :: "real \<Rightarrow> int" where
  "spec_round x = (if frac x = 1 / 2 \<and> odd (round x) then round x - 1 else round x)"

definition spec_normalized :: "real list \<Rightarrow> real list" where
  "spec_normalized c =
     (if c = [] \<or> np_sum c = 0 then c
      else map (\<lambda>x. fl_div x (fl_div (np_sum c) (real (length c)))) c)"

definition spec_window :: "int \<Rightarrow> int \<Rightarrow> int \<Rightarrow> int \<Rightarrow> int" where
  "spec_window n_i w_i n_j w_j =
     spec_round (fl_div (to_float64 (n_i * w_i + n_j * w_j)) (to_float64 (n_i + n_j)))"

definition spec_side_diff :: "real list \<Rightarrow> real list \<Rightarrow> int \<Rightarrow> int \<Rightarrow> real" where
  "spec_side_diff cross auto m w =
     fl_div (np_sum (map (\<lambda>b. \<bar>fl_sub (cross ! nat b) (auto ! nat b)\<bar>) [m - w .. m + w - 1]))
       (real_of_int (2 * w))"

definition spec_weighted_diff :: "int \<Rightarrow> real \<Rightarrow> int \<Rightarrow> real \<Rightarrow> real" where
  "spec_weighted_diff n_i d_i n_j d_j =
     fl_div (fl_add (fl_mul (to_float64 n_i) d_i) (fl_mul (to_float64 n_j) d_j))
       (to_float64 (n_i + n_j))"

text \<open>What a failed run shows: the exception and the stages that ran before it.\<close>

definition failure_report :: "error \<times> state + 'a \<Rightarrow> (error \<times> string list) option" where
  "failure_report r = (case r of Inl (e, s) \<Rightarrow> Some (e, executed s) | Inr v \<Rightarrow> None)"

text \<open>
  A small analyzer of three units (the second has too few spikes) and the default
  arguments of \<open>get_potential_auto_merge\<close>, for concrete runs.
\<close>

definition example_analyzer :: analyzer where
  "example_analyzer =
     \<lparr>unit_ids = [10, 11, 12],
      count_num_spikes_per_unit = (\<lambda>i. if i = 1 then 50 else 200),
      compute_refrac_period_violations = (\<lambda>i. 0),
      compute_firing_rates = (\<lambda>i. 1),
      merged_contamination = (\<lambda>i j. if i = 0 then 1 else 0),
      merged_firing_rate = (\<lambda>i j. 2),
      unit_distances = (\<lambda>i j. 0),
      correlograms_smoothed = (\<lambda>i j. []),
      find_peaks_d2 = (\<lambda>auto_corr. []),
      template_similarity_ext = None,
      templates_ext = None,
      sparsity = None,
      nn_best_units = None,
      compute_presence_distance = (\<lambda>pm i j. 0),
      estimate_cross_contamination = (\<lambda>i j. 1)\<rparr>"

definition default_params :: params where
  "default_params =
     \<lparr>minimum_spikes = 100, maximum_distance_um = 150, corr_diff_thresh = 16 / 100,
      template_diff_thresh = 1 / 4, contamination_threshold = 1 / 5,
      adaptative_window_threshold = 1 / 2, num_channels = Some 5, num_shift = 5,
      firing_contamination_balance = 5 / 2, extra_outputs = False, steps = None,
      presence_distance_thresh = 100, preset = None, template_metric = ''l1'',
      p_value = 1 / 5\<rparr>"

text \<open>
  Smoothed correlograms of two units over six bins, with means 2, 2 and 1/2, for a
  concrete run.
\<close>

definition example_correlograms :: "nat \<Rightarrow> nat \<Rightarrow> real list" where
  "example_correlograms u v =
     (if u = 0 \<and> v = 0 then [0, 2, 4, 4, 2, 0]
      else if u = 0 \<and> v = 1 then [0, 4, 2, 2, 4, 0]
      else [1 / 2, 1 / 2, 1 / 2, 1 / 2, 1 / 2, 1 / 2])"

section \<open>Properties\<close>

subsection \<open>float64 rounding\<close>

lemma bitlen_numeral [simp]: "bitlen (numeral n) = bitlen (numeral n div 2) + 1"
  by (subst compute_bitlen) simp

lemma bitlen_one [simp]: "bitlen 1 = 1"
  by (subst compute_bitlen) simp

lemmas float_eval = fl_add_def fl_sub_def fl_mul_def fl_div_def to_float64_def float64_def
  binade_def pow2_def round_half_even_def Let_def

lemma pow2_powi: "pow2 k = 2 powi k"
  by (simp add: pow2_def power_int_def power_one_over inverse_eq_divide)

lemma pow2_pos: "0 < pow2 k"
  by (simp add: pow2_def)

lemma pow2_add: "pow2 (a + b) = pow2 a * pow2 b"
  by (simp add: pow2_powi power_int_add)

lemma pow2_add_nat: "pow2 (e + int n) = pow2 e * 2 ^ n"
  by (simp add: pow2_add) (simp add: pow2_def)

lemma pow2_less_iff: "pow2 a < pow2 b \<longleftrightarrow> a < b"
proof
  assume l: "pow2 a < pow2 b"
  show "a < b"
  proof (rule ccontr)
    assume "\<not> a < b"
    then have "b \<le> a" by simp
    then have "(2::real) powi b \<le> 2 powi a" by (rule power_int_increasing) simp
    with l show False by (simp add: pow2_powi)
  qed
next
  assume "a < b"
  then have "(2::real) powi a < 2 powi b" by (rule power_int_strict_increasing) simp
  then show "pow2 a < pow2 b" by (simp add: pow2_powi)
qed

text \<open>The exponent that \<open>binade\<close> computes is the right one, and the only one.\<close>

lemma binade_lower:
  assumes "0 < x"
  shows "pow2 (binade x) \<le> x"
proof (cases "1 \<le> x")
  case True
  then have pos: "0 < \<lfloor>x\<rfloor>" by linarith
  from bitlen_bounds [OF pos] have b: "2 ^ nat (bitlen \<lfloor>x\<rfloor> - 1) \<le> \<lfloor>x\<rfloor>" by simp
  from pos have "1 \<le> bitlen \<lfloor>x\<rfloor>" by (simp add: bitlen_alt_def)
  then have "pow2 (binade x) = 2 ^ nat (bitlen \<lfloor>x\<rfloor> - 1)"
    using True by (simp add: binade_def pow2_def)
  also have "\<dots> = real_of_int (2 ^ nat (bitlen \<lfloor>x\<rfloor> - 1))" by simp
  also from b have "\<dots> \<le> real_of_int \<lfloor>x\<rfloor>" by (simp only: of_int_le_iff)
  also have "\<dots> \<le> x" by simp
  finally show ?thesis .
next
  case False
  let ?z = "\<lceil>1 / x\<rceil> - 1"
  let ?b = "bitlen ?z"
  from False assms have "1 < 1 / x" by simp
  then have pos: "0 < ?z" by linarith
  from pos have b1: "1 \<le> ?b" by (simp add: bitlen_alt_def)
  from bitlen_bounds [OF pos] have "?z < 2 ^ nat ?b" by simp
  then have "\<lceil>1 / x\<rceil> \<le> 2 ^ nat ?b" by simp
  then have "real_of_int \<lceil>1 / x\<rceil> \<le> real_of_int (2 ^ nat ?b)" by (simp only: of_int_le_iff)
  then have "1 / x \<le> 2 ^ nat ?b" by (simp add: ceiling_le_iff)
  with assms have "1 / 2 ^ nat ?b \<le> x" by (simp add: field_simps)
  moreover from False b1 have "pow2 (binade x) = 1 / 2 ^ nat ?b"
    by (simp add: binade_def pow2_def)
  ultimately show ?thesis by simp
qed

lemma binade_upper:
  assumes "0 < x"
  shows "x < pow2 (binade x + 1)"
proof (cases "1 \<le> x")
  case True
  then have pos: "0 < \<lfloor>x\<rfloor>" by linarith
  from bitlen_bounds [OF pos] have b: "\<lfloor>x\<rfloor> < 2 ^ nat (bitlen \<lfloor>x\<rfloor>)" by simp
  then have "\<lfloor>x\<rfloor> + 1 \<le> 2 ^ nat (bitlen \<lfloor>x\<rfloor>)" by simp
  then have "real_of_int (\<lfloor>x\<rfloor> + 1) \<le> real_of_int (2 ^ nat (bitlen \<lfloor>x\<rfloor>))"
    by (simp only: of_int_le_iff)
  then have "real_of_int \<lfloor>x\<rfloor> + 1 \<le> 2 ^ nat (bitlen \<lfloor>x\<rfloor>)" by simp
  moreover have "x < real_of_int \<lfloor>x\<rfloor> + 1" by linarith
  ultimately have "x < 2 ^ nat (bitlen \<lfloor>x\<rfloor>)" by linarith
  moreover from pos have "1 \<le> bitlen \<lfloor>x\<rfloor>" by (simp add: bitlen_alt_def)
  then have "pow2 (binade x + 1) = 2 ^ nat (bitlen \<lfloor>x\<rfloor>)"
    using True by (simp add: binade_def pow2_def)
  ultimately show ?thesis by simp
next
  case False
  let ?z = "\<lceil>1 / x\<rceil> - 1"
  let ?b = "bitlen ?z"
  from False assms have "1 < 1 / x" by simp
  then have pos: "0 < ?z" by linarith
  from pos have b1: "1 \<le> ?b" by (simp add: bitlen_alt_def)
  from bitlen_bounds [OF pos] have "2 ^ nat (?b - 1) \<le> ?z" by simp
  then have "real_of_int (2 ^ nat (?b - 1)) \<le> real_of_int ?z" by (simp only: of_int_le_iff)
  moreover have "real_of_int ?z < 1 / x" by linarith
  ultimately have "2 ^ nat (?b - 1) < 1 / x" by simp
  with assms have "x < 1 / 2 ^ nat (?b - 1)" by (simp add: field_simps)
  moreover from False b1 have "pow2 (binade x + 1) = 1 / 2 ^ nat (?b - 1)"
    by (auto simp: binade_def pow2_def nat_diff_distrib)
  ultimately show ?thesis by simp
qed

lemma binade_unique:
  assumes "pow2 b \<le> y" and "y < pow2 (b + 1)"
  shows "binade y = b"
proof -
  from assms(1) pow2_pos [of b] have pos: "0 < y" by linarith
  from binade_lower [OF pos] assms(2) have "pow2 (binade y) < pow2 (b + 1)" by linarith
  then have "binade y < b + 1" by (simp only: pow2_less_iff)
  moreover from binade_upper [OF pos] assms(1) have "pow2 b < pow2 (binade y + 1)" by linarith
  then have "b < binade y + 1" by (simp only: pow2_less_iff)
  ultimately show ?thesis by simp
qed

lemma round_half_even_of_int: "round_half_even (real_of_int k) = k"
  by (simp add: round_half_even_def)

lemma round_half_even_ge:
  assumes "real_of_int k \<le> x"
  shows "k \<le> round_half_even x"
proof -
  from assms have "k \<le> \<lfloor>x\<rfloor>" by (simp add: le_floor_iff)
  then show ?thesis by (auto simp: round_half_even_def Let_def)
qed

lemma round_half_even_le:
  assumes "x \<le> real_of_int k"
  shows "round_half_even x \<le> k"
proof (cases "x = real_of_int k")
  case True
  then show ?thesis by (simp add: round_half_even_of_int)
next
  case False
  with assms have "x < real_of_int k" by simp
  then have "\<lfloor>x\<rfloor> < k" by (simp add: floor_less_iff)
  then show ?thesis by (auto simp: round_half_even_def Let_def)
qed

lemma round_half_even_minus: "round_half_even (- x) = - round_half_even x"
proof (cases "x \<in> \<int>")
  case True
  then obtain k where "x = real_of_int k" by (auto elim: Ints_cases)
  then have "- x = real_of_int (- k)" by simp
  then show ?thesis using \<open>x = real_of_int k\<close> by (simp only: round_half_even_of_int)
next
  case False
  then have "x \<noteq> real_of_int \<lfloor>x\<rfloor>" by (metis Ints_of_int)
  then have f: "\<lfloor>- x\<rfloor> = - \<lfloor>x\<rfloor> - 1"
    by (simp add: floor_minus ceiling_altdef)
  have d: "- x - real_of_int (- \<lfloor>x\<rfloor> - 1) = 1 - (x - real_of_int \<lfloor>x\<rfloor>)" by simp
  have "0 \<le> x - real_of_int \<lfloor>x\<rfloor>" "x - real_of_int \<lfloor>x\<rfloor> < 1" by linarith+
  then show ?thesis
    unfolding round_half_even_def Let_def f d by auto
qed

lemma float64_zero [simp]: "float64 0 = 0"
  by (simp add: float64_def)

lemma float64_minus: "float64 (- x) = - float64 x"
  by (simp add: float64_def Let_def round_half_even_minus)

text \<open>A rounded positive number has a significand of 53 bits.\<close>

lemma float64_scaled:
  assumes "0 < x"
  shows "\<exists>k. float64 x = real_of_int k * pow2 (binade x - 52) \<and> 2 ^ 52 \<le> k \<and> k \<le> 2 ^ 53"
proof -
  let ?e = "binade x"
  let ?u = "pow2 (?e - 52)"
  let ?k = "round_half_even (x / ?u)"
  have u: "0 < ?u" by (rule pow2_pos)
  have lo: "pow2 ?e = ?u * 2 ^ 52"
    using pow2_add_nat [of "?e - 52" 52] by simp
  have hi: "pow2 (?e + 1) = ?u * 2 ^ 53"
    using pow2_add_nat [of "?e - 52" 53] by (simp add: add.commute)
  from binade_lower [OF assms] lo have "?u * 2 ^ 52 \<le> x" by simp
  with u have "real_of_int (2 ^ 52) \<le> x / ?u" by (simp add: field_simps)
  then have k1: "2 ^ 52 \<le> ?k" by (rule round_half_even_ge)
  from binade_upper [OF assms] hi have "x < ?u * 2 ^ 53" by simp
  with u have "x / ?u \<le> real_of_int (2 ^ 53)" by (simp add: field_simps)
  then have k2: "?k \<le> 2 ^ 53" by (rule round_half_even_le)
  from assms have "float64 x = real_of_int ?k * ?u" by (simp add: float64_def Let_def)
  with k1 k2 show ?thesis by blast
qed

lemma float64_pos:
  assumes "0 < x"
  shows "0 < float64 x"
proof -
  from float64_scaled [OF assms] obtain k
    where k: "float64 x = real_of_int k * pow2 (binade x - 52)" "2 ^ 52 \<le> k" by blast
  from k(2) have "0 < real_of_int k" by simp
  with pow2_pos [of "binade x - 52"] show ?thesis unfolding k(1) by simp
qed


lemma float64_eq_0_iff: "float64 x = 0 \<longleftrightarrow> x = 0"
proof
  assume z: "float64 x = 0"
  show "x = 0"
  proof (rule ccontr)
    assume "x \<noteq> 0"
    then consider "0 < x" | "0 < - x" by linarith
    then show False
    proof cases
      case 1
      from float64_pos [OF 1] z show False by simp
    next
      case 2
      from float64_pos [OF 2] z show False by (simp add: float64_minus)
    qed
  qed
qed simp

text \<open>Rounding a float64 gives it back.\<close>

lemma float64_idem_pos:
  assumes "0 < x"
  shows "float64 (float64 x) = float64 x"
proof -
  let ?e = "binade x"
  let ?u = "pow2 (?e - 52)"
  from float64_scaled [OF assms] obtain k
    where y: "float64 x = real_of_int k * ?u" and k1: "2 ^ 52 \<le> k" and k2: "k \<le> 2 ^ 53"
    by blast
  have u: "0 < ?u" by (rule pow2_pos)
  have lo: "pow2 ?e = ?u * 2 ^ 52"
    using pow2_add_nat [of "?e - 52" 52] by simp
  have hi: "pow2 (?e + 1) = ?u * 2 ^ 53"
    using pow2_add_nat [of "?e - 52" 53] by (simp add: add.commute)
  have u2: "pow2 (?e - 51) = ?u * 2"
    using pow2_add_nat [of "?e - 52" 1] by (simp add: add.commute)
  from k1 have kpos: "0 < real_of_int k" by simp
  with u have ypos: "float64 x \<noteq> 0" "\<bar>float64 x\<bar> = float64 x" unfolding y by simp_all
  show ?thesis
  proof (cases "k = 2 ^ 53")
    case True
    then have yv: "float64 x = pow2 (?e + 1)" unfolding y hi by simp
    have "binade (float64 x) = ?e + 1"
    proof (rule binade_unique)
      show "pow2 (?e + 1) \<le> float64 x" by (simp add: yv)
      have "pow2 (?e + 1) < pow2 (?e + 1 + 1)" by (simp add: pow2_less_iff)
      then show "float64 x < pow2 (?e + 1 + 1)" by (simp add: yv)
    qed
    then have "float64 (float64 x)
        = real_of_int (round_half_even (float64 x / (?u * 2))) * (?u * 2)"
      using ypos by (simp add: float64_def [of "float64 x"] Let_def u2)
    also from u have "float64 x / (?u * 2) = real_of_int (2 ^ 52)"
      unfolding yv hi by simp
    also have "real_of_int (round_half_even (real_of_int (2 ^ 52))) * (?u * 2) = ?u * 2 ^ 53"
      by (simp only: round_half_even_of_int) simp
    finally show ?thesis by (simp add: yv hi)
  next
    case False
    with k2 have k3: "k < 2 ^ 53" by simp
    have "binade (float64 x) = ?e"
    proof (rule binade_unique)
      from k1 have "real_of_int (2 ^ 52) \<le> real_of_int k" by (simp only: of_int_le_iff)
      with u show "pow2 ?e \<le> float64 x" unfolding y lo by (simp add: mult.commute)
      from k3 have "real_of_int k < real_of_int (2 ^ 53)" by (simp only: of_int_less_iff)
      with u show "float64 x < pow2 (?e + 1)" unfolding y hi by (simp add: mult.commute)
    qed
    then have "float64 (float64 x) = real_of_int (round_half_even (float64 x / ?u)) * ?u"
      using ypos by (simp add: float64_def [of "float64 x"] Let_def)
    also from u have "float64 x / ?u = real_of_int k" unfolding y by simp
    finally show ?thesis by (simp only: round_half_even_of_int y)
  qed
qed

lemma float64_idem: "float64 (float64 x) = float64 x"
proof -
  consider "x = 0" | "0 < x" | "0 < - x" by linarith
  then show ?thesis
  proof cases
    case 1
    then show ?thesis by simp
  next
    case 2
    then show ?thesis by (rule float64_idem_pos)
  next
    case 3
    from float64_idem_pos [OF 3] show ?thesis by (simp add: float64_minus)
  qed
qed

text \<open>The sum of an all-zero array is zero; a short array is added from left to right.\<close>

lemma foldl_fl_add_zeros: "foldl fl_add 0 (replicate k 0) = 0"
  by (induction k) (simp_all add: fl_add_def)

lemma accumulate_zeros:
  assumes "\<forall>k\<in>set ks. 8 * k + 8 \<le> n"
  shows "foldl (\<lambda>r i. map2 fl_add r (take 8 (drop i (replicate n 0))))
           (replicate 8 0) (map (\<lambda>k. 8 * k) ks) = replicate 8 0"
  using assms
proof (induction ks)
  case Nil
  then show ?case by simp
next
  case (Cons k ks)
  from Cons.prems have "8 * k + 8 \<le> n" by simp
  then have "min 8 (n - 8 * k) = 8" by linarith
  with Cons show ?case by (simp add: fl_add_def)
qed

lemma pairwise_sum_zeros: "pairwise_sum (replicate n 0) = 0"
proof (induction n rule: less_induct)
  case (less n)
  consider "n < 8" | "8 \<le> n" "n \<le> 128" | "128 < n" by linarith
  then show ?case
  proof cases
    case 1
    then show ?thesis
      by (simp add: pairwise_sum.simps [of "replicate n 0"] foldl_fl_add_zeros)
  next
    case 2
    have ks: "\<forall>k\<in>set [1..<n div 8]. 8 * k + 8 \<le> n" by auto
    from 2 have t: "take 8 (replicate n (0::real)) = replicate 8 0" by simp
    have r: "foldl (\<lambda>r i. map2 fl_add r (take 8 (drop i (replicate n 0))))
        (take 8 (replicate n 0)) (map (\<lambda>k. 8 * k) [1..<n div 8]) = replicate 8 0"
      unfolding t by (rule accumulate_zeros [OF ks])
    from 2 have c: "\<not> n < 8" "n \<le> 128" by simp_all
    show ?thesis
      apply (subst pairwise_sum.simps)
      apply (simp only: Let_def length_replicate c if_False if_True r)
      apply (simp add: fl_add_def foldl_fl_add_zeros)
      done
  next
    case 3
    let ?n2 = "n div 2 - (n div 2) mod 8"
    from 3 have a: "?n2 < n" and b: "n - ?n2 < n" by linarith+
    from a have m: "min ?n2 n = ?n2" by simp
    from 3 have "pairwise_sum (replicate n 0)
        = fl_add (pairwise_sum (replicate ?n2 0)) (pairwise_sum (replicate (n - ?n2) 0))"
      by (subst pairwise_sum.simps) (simp add: Let_def m)
    with less.IH [OF a] less.IH [OF b] show ?thesis by (simp add: fl_add_def)
  qed
qed

lemma np_sum_zeros: "np_sum (replicate n 0) = 0"
  by (simp add: np_sum_def pairwise_sum_zeros fl_add_def)

lemma pairwise_sum_short: "length a < 8 \<Longrightarrow> pairwise_sum a = foldl fl_add 0 a"
  by (subst pairwise_sum.simps) simp

subsection \<open>normalize\_correlogram\<close>

lemma example_first_pass:
  "normalize_correlogram [0, 1, 6] = [0, 7720456504063707 / 2 ^ 54, 5790342378047780 / 2 ^ 51]"
  by (simp add: normalize_correlogram_def np_mean_def np_sum_def pairwise_sum_short float_eval)

lemma example_first_pass_mean:
  "np_mean [0, 7720456504063707 / 2 ^ 54, 5790342378047780 / 2 ^ 51]
     = Some (9007199254740991 / 2 ^ 53)"
  by (simp add: np_mean_def np_sum_def pairwise_sum_short float_eval)

lemma example_second_pass:
  "normalize_correlogram [0, 7720456504063707 / 2 ^ 54, 5790342378047780 / 2 ^ 51]
     = [0, 7720456504063708 / 2 ^ 54, 5790342378047781 / 2 ^ 51]"
  by (simp add: normalize_correlogram_def np_mean_def np_sum_def pairwise_sum_short float_eval)

text \<open>
  Claim C9 as stated fails: normalising twice is not normalising once for every
  correlogram. The correlogram \<open>0, 1, 6\<close> has mean \<open>7/3\<close>; the float64 quotients
  \<open>0, 0.42857142857142855, 2.571428571428571\<close> of the first pass have the float64 mean
  \<open>1 - 2\<^sup>-\<^sup>5\<^sup>3\<close>, not 1, and the second pass moves the last two entries to the next float64.
\<close>

theorem normalize_twice_counterexample:
  "normalize_correlogram [0, 1, 6] = [0, 7720456504063707 / 2 ^ 54, 5790342378047780 / 2 ^ 51]
   \<and> normalize_correlogram (normalize_correlogram [0, 1, 6])
     = [0, 7720456504063708 / 2 ^ 54, 5790342378047781 / 2 ^ 51]
   \<and> normalize_correlogram (normalize_correlogram [0, 1, 6]) \<noteq> normalize_correlogram [0, 1, 6]"
  by (simp only: example_first_pass example_second_pass) simp

text \<open>
  Claim C9, as the code has it. A correlogram of float64 values whose computed mean is
  exactly 1 is returned unchanged; so normalising a second time changes nothing when the
  computed mean of the normalized correlogram is exactly 1; and an all-zero correlogram is
  returned unchanged.
\<close>

theorem normalize_correlogram_fixed_points:
  assumes "np_mean c = Some 1" and "\<forall>v\<in>set c. float64 v = v"
    and "np_mean (normalize_correlogram x) = Some 1"
    and "\<forall>v\<in>set z. v = 0"
  shows "normalize_correlogram c = c
       \<and> normalize_correlogram (normalize_correlogram x) = normalize_correlogram x
       \<and> normalize_correlogram z = z"
proof (intro conjI)
  from assms(2) have "map float64 c = c" by (simp add: map_idI)
  with assms(1) show "normalize_correlogram c = c"
    by (simp add: normalize_correlogram_def fl_div_def)
next
  have "\<forall>v\<in>set (normalize_correlogram x). float64 v = v"
  proof (cases "np_mean x")
    case None
    then show ?thesis by (simp add: normalize_correlogram_def)
  next
    case (Some m)
    show ?thesis
    proof (cases "m = 0")
      case True
      with Some have "normalize_correlogram x = x" by (simp add: normalize_correlogram_def)
      with assms(3) Some True show ?thesis by simp
    next
      case False
      with Some show ?thesis
        by (auto simp: normalize_correlogram_def fl_div_def float64_idem)
    qed
  qed
  then have "map float64 (normalize_correlogram x) = normalize_correlogram x"
    by (simp add: map_idI)
  with assms(3)
  show "normalize_correlogram (normalize_correlogram x) = normalize_correlogram x"
    by (simp add: normalize_correlogram_def [of "normalize_correlogram x"] fl_div_def)
next
  from assms(4) have r: "z = replicate (length z) 0"
    by (simp add: replicate_length_same)
  show "normalize_correlogram z = z"
  proof (cases "z = []")
    case True
    then show ?thesis by (simp add: normalize_correlogram_def np_mean_def)
  next
    case False
    have "np_sum z = 0" by (subst r) (rule np_sum_zeros)
    with False have "np_mean z = Some 0" by (simp add: np_mean_def fl_div_def)
    then show ?thesis by (simp add: normalize_correlogram_def)
  qed
qed

theorem normalize_correlogram_fixed_points_witness:
  "np_mean [1 / 2, 3 / 2] = Some 1
   \<and> normalize_correlogram [1, 3] = [1 / 2, 3 / 2]
   \<and> normalize_correlogram [1 / 2, 3 / 2] = [1 / 2, 3 / 2]
   \<and> normalize_correlogram (normalize_correlogram [1, 3]) = normalize_correlogram [1, 3]
   \<and> normalize_correlogram [0, 0] = [0, 0]"
proof -
  have h1: "np_mean [1 / 2, 3 / 2] = Some 1"
    by (simp add: np_mean_def np_sum_def pairwise_sum_short float_eval)
  have h2: "\<forall>v\<in>set [1 / 2, 3 / 2 :: real]. float64 v = v"
    by (simp add: float_eval)
  have n: "normalize_correlogram [1, 3] = [1 / 2, 3 / 2]"
    by (simp add: normalize_correlogram_def np_mean_def np_sum_def pairwise_sum_short float_eval)
  have h3: "np_mean (normalize_correlogram [1, 3]) = Some 1"
    by (simp only: n h1)
  have h4: "\<forall>v\<in>set [0, 0 :: real]. v = 0" by simp
  from normalize_correlogram_fixed_points [OF h1 h2 h3 h4] h1 n
  show ?thesis by simp
qed

subsection \<open>Stages only clear entries\<close>

lemma mask_le_refl: "mask_le m m"
  by (simp add: mask_le_def list_all2_refl)

lemma mask_le_trans: "mask_le m2 m1 \<Longrightarrow> mask_le m1 m0 \<Longrightarrow> mask_le m2 m0"
  unfolding mask_le_def list_all2_conv_all_nth by auto

lemma mask_le_nth:
  "mask_le m' m \<Longrightarrow> i < length m \<Longrightarrow> j < length (m ! i) \<Longrightarrow> m' ! i ! j \<Longrightarrow> m ! i ! j"
  by (auto simp: mask_le_def list_all2_conv_all_nth)

lemma mask_le_length: "mask_le m' m \<Longrightarrow> length m' = length m"
  by (simp add: mask_le_def list_all2_lengthD)

lemma mask_le_row_length: "mask_le m' m \<Longrightarrow> i < length m \<Longrightarrow> length (m' ! i) = length (m ! i)"
  by (auto simp: mask_le_def list_all2_conv_all_nth)

lemma mask_leI:
  assumes "length m' = length m"
    and "\<And>i. i < length m \<Longrightarrow> length (m' ! i) = length (m ! i)"
    and "\<And>i j. i < length m \<Longrightarrow> j < length (m ! i) \<Longrightarrow> m' ! i ! j \<Longrightarrow> m ! i ! j"
  shows "mask_le m' m"
  using assms by (auto simp: mask_le_def list_all2_conv_all_nth)

lemma mask_and_le: "mask_le (mask_and m q) m"
  by (rule mask_leI) (simp_all add: mask_and_def)

lemma clear_rows_le: "mask_le (clear_rows r m) m"
  by (rule mask_leI) (auto simp: clear_rows_def split: if_splits)

lemma clear_cols_le: "mask_le (clear_cols r m) m"
  by (rule mask_leI) (auto simp: clear_cols_def split: if_splits)

lemma row_count_le:
  "list_all2 (\<lambda>b' b. b' \<longrightarrow> b) r' r \<Longrightarrow> length (filter (\<lambda>b. b) r') \<le> length (filter (\<lambda>b. b) r)"
  by (induction rule: list_all2_induct) auto

lemma count_true_le: "mask_le m' m \<Longrightarrow> count_true m' \<le> count_true m"
  unfolding mask_le_def count_true_def
  by (induction rule: list_all2_induct) (auto dest: row_count_le intro: add_mono)

lemma clear_entry_le: "mask_le (m[i := (m ! i)[j := False]]) m"
proof (rule mask_leI)
  show "length (m[i := (m ! i)[j := False]]) = length m" by simp
next
  fix ia assume "ia < length m"
  then show "length (m[i := (m ! i)[j := False]] ! ia) = length (m ! ia)"
    by (cases "ia = i") simp_all
next
  fix ia ja assume "ia < length m" "ja < length (m ! ia)" "m[i := (m ! i)[j := False]] ! ia ! ja"
  then show "m ! ia ! ja"
    by (cases "ia = i"; cases "ja = j") simp_all
qed

lemma check_pairs_le: "check_pairs a c k ps (m, r) = (m', r') \<Longrightarrow> mask_le m' m"
proof (induction ps arbitrary: m r)
  case Nil
  then show ?case by (simp add: mask_le_refl)
next
  case (Cons q ps)
  obtain i j where q: "q = (i, j)" by (cases q)
  from Cons.prems show ?case
    unfolding q
    by (auto simp: Let_def split: if_splits
        dest: Cons.IH intro: mask_le_trans [OF _ clear_entry_le])
qed

lemma run_step_le:
  assumes "run_step a p stps step s = Inr s'"
  shows "mask_le (pair_mask s') (pair_mask s)"
  using assms
  by (auto simp: run_step_def Let_def get_pairs_via_nntree_def
      check_improve_contaminations_score_def
      intro: mask_and_le mask_le_refl mask_le_trans [OF clear_cols_le clear_rows_le]
      split: if_splits sum.splits option.splits prod.splits
      dest: check_pairs_le)


lemma run_steps_append:
  "run_steps a p stps (xs @ ys) s =
     (case run_steps a p stps xs s of Inl f \<Rightarrow> Inl f | Inr s' \<Rightarrow> run_steps a p stps ys s')"
  by (induction xs arbitrary: s) (auto split: sum.splits)

lemma run_steps_le:
  "run_steps a p stps xs s = Inr s' \<Longrightarrow> mask_le (pair_mask s') (pair_mask s)"
proof (induction xs arbitrary: s)
  case Nil
  then show ?case by (simp add: mask_le_refl)
next
  case (Cons x xs)
  then show ?case
    by (auto split: if_splits sum.splits dest: run_step_le intro: mask_le_trans)
qed

text \<open>
  Claim C1. Whatever the stage list and whatever the stage, the candidate matrix after the
  stage has the shape of the matrix before it and is True only where that one was: no
  stage sets a False entry back to True, and the number of True entries after stage
  \<open>k + 1\<close> is at most the number after stage \<open>k\<close>.
\<close>

theorem candidate_set_monotone:
  assumes "run_steps a p stps (pre @ [step]) s0 = Inr s'"
  shows "\<exists>s. run_steps a p stps pre s0 = Inr s
           \<and> mask_le (pair_mask s') (pair_mask s)
           \<and> count_true (pair_mask s') \<le> count_true (pair_mask s)"
proof (cases "run_steps a p stps pre s0")
  case (Inl f)
  with assms show ?thesis by (simp add: run_steps_append)
next
  case (Inr s)
  with assms have "run_steps a p stps [step] s = Inr s'"
    by (simp add: run_steps_append)
  then have "mask_le (pair_mask s') (pair_mask s)" by (rule run_steps_le)
  with Inr show ?thesis by (simp add: count_true_le)
qed

lemma upt3: "[0..<3] = [0, 1, 2]"
  by (simp add: upt_rec)

lemma example_min_spikes_only:
  "run_steps example_analyzer (default_params\<lparr>steps := st\<rparr>) [''min_spikes''] [''min_spikes'']
     (initial_state example_analyzer)
   = Inr \<lparr>pair_mask = [[False, False, True], [False, False, False], [False, False, True]],
          contaminations = None, outs = Map.empty, executed = [''min_spikes'']\<rparr>"
  by (simp add: run_step_def all_steps_def initial_state_def example_analyzer_def
      default_params_def initial_pair_mask_def np_triu_arange_def clear_rows_def clear_cols_def upt3)

theorem candidate_set_monotone_witness:
  "run_steps example_analyzer (default_params\<lparr>steps := Some [''min_spikes'']\<rparr>) [''min_spikes''] ([] @ [''min_spikes''])
     (initial_state example_analyzer)
   = Inr \<lparr>pair_mask = [[False, False, True], [False, False, False], [False, False, True]],
          contaminations = None, outs = Map.empty, executed = [''min_spikes'']\<rparr>
   \<and> mask_le [[False, False, True], [False, False, False], [False, False, True]]
        (initial_pair_mask 3)
   \<and> count_true [[False, False, True], [False, False, False], [False, False, True]]
        \<le> count_true (initial_pair_mask 3)"
proof -
  have run: "run_steps example_analyzer (default_params\<lparr>steps := Some [''min_spikes'']\<rparr>) [''min_spikes''] ([] @ [''min_spikes''])
     (initial_state example_analyzer)
   = Inr \<lparr>pair_mask = [[False, False, True], [False, False, False], [False, False, True]],
          contaminations = None, outs = Map.empty, executed = [''min_spikes'']\<rparr>"
    using example_min_spikes_only by simp
  from candidate_set_monotone [OF run]
  obtain s where s: "run_steps example_analyzer (default_params\<lparr>steps := Some [''min_spikes'']\<rparr>) [''min_spikes''] []
        (initial_state example_analyzer) = Inr s"
    and le: "mask_le [[False, False, True], [False, False, False], [False, False, True]] (pair_mask s)"
    and cnt: "count_true [[False, False, True], [False, False, False], [False, False, True]]
        \<le> count_true (pair_mask s)"
    by auto
  from s have "pair_mask s = initial_pair_mask 3"
    by (auto simp: initial_state_def example_analyzer_def eval_nat_numeral)
  with run le cnt show ?thesis by simp
qed

subsection \<open>The initial matrix and the final pair list\<close>

lemma length_initial_pair_mask: "length (initial_pair_mask n) = n"
  by (simp add: initial_pair_mask_def np_triu_arange_def)

lemma length_initial_pair_mask_row: "i < n \<Longrightarrow> length (initial_pair_mask n ! i) = n"
  by (simp add: initial_pair_mask_def np_triu_arange_def)

lemma initial_pair_mask_nth:
  "i < n \<Longrightarrow> j < n \<Longrightarrow> initial_pair_mask n ! i ! j = (i \<le> j \<and> 0 < j)"
  by (auto simp: initial_pair_mask_def np_triu_arange_def)

lemma np_nonzero_iff:
  "(i, j) \<in> set (np_nonzero m) \<longleftrightarrow> i < length m \<and> j < length (m ! i) \<and> m ! i ! j"
  by (auto simp: np_nonzero_def)

lemma reached_mask:
  assumes "run_steps a p stps xs (initial_state a) = Inr s"
    and "(i, j) \<in> set (np_nonzero (pair_mask s))"
  shows "i < length (unit_ids a) \<and> j < length (unit_ids a) \<and> i \<le> j \<and> 0 < j"
proof -
  let ?n = "length (unit_ids a)"
  from run_steps_le [OF assms(1)]
  have le: "mask_le (pair_mask s) (initial_pair_mask ?n)"
    by (simp add: initial_state_def)
  from assms(2) have ij: "i < length (pair_mask s)" "j < length (pair_mask s ! i)"
    "pair_mask s ! i ! j"
    by (simp_all add: np_nonzero_iff)
  from le ij(1) have i: "i < ?n"
    by (simp add: mask_le_length length_initial_pair_mask)
  with le ij(2) have j: "j < ?n"
    using mask_le_row_length [OF le, of i]
    by (simp add: length_initial_pair_mask length_initial_pair_mask_row)
  from mask_le_nth [OF le _ _ ij(3)] i j have "initial_pair_mask ?n ! i ! j"
    by (simp add: length_initial_pair_mask length_initial_pair_mask_row)
  with i j show ?thesis by (simp add: initial_pair_mask_nth)
qed

text \<open>
  Claim C8. In every state a run reaches, the entries strictly below the diagonal are
  False, and for distinct unit identifiers the returned list never holds both
  \<open>(u, v)\<close> and \<open>(v, u)\<close> for two different units.
\<close>

theorem finalizer_symmetry:
  assumes "distinct (unit_ids a)"
    and "run_steps a p stps pre (initial_state a) = Inr s"
    and "j < i" and "i < length (unit_ids a)"
    and "get_potential_auto_merge a p = Inr (pairs, d)"
    and "u \<noteq> v"
  shows "\<not> pair_mask s ! i ! j \<and> \<not> ((u, v) \<in> set pairs \<and> (v, u) \<in> set pairs)"
proof
  let ?n = "length (unit_ids a)"
  show "\<not> pair_mask s ! i ! j"
  proof
    assume t: "pair_mask s ! i ! j"
    from run_steps_le [OF assms(2)]
    have le: "mask_le (pair_mask s) (initial_pair_mask ?n)"
      by (simp add: initial_state_def)
    from assms(3,4) have "j < ?n" by simp
    with le assms(4) t have "(i, j) \<in> set (np_nonzero (pair_mask s))"
      using mask_le_row_length [OF le, of i]
      by (simp add: np_nonzero_iff mask_le_length length_initial_pair_mask
          length_initial_pair_mask_row)
    from reached_mask [OF assms(2) this] assms(3) show False by simp
  qed
next
  show "\<not> ((u, v) \<in> set pairs \<and> (v, u) \<in> set pairs)"
  proof
    assume both: "(u, v) \<in> set pairs \<and> (v, u) \<in> set pairs"
    from assms(5) obtain stps' s' where
      run: "run_steps a p stps' stps' (initial_state a) = Inr s'"
      and pairs: "pairs = potential_merges a (pair_mask s')"
      by (auto simp: get_potential_auto_merge_def split: option.splits sum.splits)
    from both pairs obtain i1 j1 i2 j2 where
      m1: "(i1, j1) \<in> set (np_nonzero (pair_mask s'))"
      and e1: "u = unit_ids a ! i1" "v = unit_ids a ! j1"
      and m2: "(i2, j2) \<in> set (np_nonzero (pair_mask s'))"
      and e2: "v = unit_ids a ! i2" "u = unit_ids a ! j2"
      by (auto simp: potential_merges_def)
    from reached_mask [OF run m1] have b1: "i1 < length (unit_ids a)" "j1 < length (unit_ids a)" "i1 \<le> j1"
      by simp_all
    from reached_mask [OF run m2] have b2: "i2 < length (unit_ids a)" "j2 < length (unit_ids a)" "i2 \<le> j2"
      by simp_all
    from assms(1) e1 e2 b1 b2 have "i1 = j2" "j1 = i2"
      by (simp_all add: nth_eq_iff_index_eq)
    with b1 b2 have "i1 = j1" by simp
    with e1 assms(6) show False by simp
  qed
qed

lemma example_min_spikes_merges:
  "get_potential_auto_merge example_analyzer (default_params\<lparr>steps := Some [''min_spikes'']\<rparr>)
   = Inr ([(10, 12), (12, 12)], None)"
proof -
  have "potential_merges example_analyzer
      [[False, False, True], [False, False, False], [False, False, True]] = [(10, 12), (12, 12)]"
    by (simp add: potential_merges_def np_nonzero_def upt3 example_analyzer_def)
  moreover have "\<not> extra_outputs (default_params\<lparr>steps := Some [''min_spikes'']\<rparr>)"
    by (simp add: default_params_def)
  ultimately show ?thesis
    by (simp add: get_potential_auto_merge_def example_min_spikes_only del: run_steps.simps)
qed

theorem finalizer_symmetry_witness:
  "distinct (unit_ids example_analyzer)
   \<and> get_potential_auto_merge example_analyzer (default_params\<lparr>steps := Some [''min_spikes'']\<rparr>)
       = Inr ([(10, 12), (12, 12)], None)
   \<and> \<not> [[False, False, True], [False, False, False], [False, False, True]] ! 1 ! 0
   \<and> \<not> ((10, 12) \<in> set [(10, 12), (12, 12 :: nat)] \<and> (12, 10) \<in> set [(10, 12), (12, 12 :: nat)])"
proof -
  have d: "distinct (unit_ids example_analyzer)" by (simp add: example_analyzer_def)
  have n: "(1::nat) < length (unit_ids example_analyzer)" by (simp add: example_analyzer_def)
  have ne: "(10::nat) \<noteq> 12" by simp
  from finalizer_symmetry [OF d example_min_spikes_only _ n example_min_spikes_merges ne, of 0]
    d example_min_spikes_merges
  show ?thesis by simp
qed

text \<open>
  Claim C10. The initial matrix \<open>np.triu(np.arange(n)) > 0\<close> is False at \<open>(0, 0)\<close> and
  True at every diagonal entry \<open>(i, i)\<close> with \<open>i \<ge> 1\<close>; so with an empty stage list the
  returned list holds the self-pair of every unit but the first, next to every pair
  strictly above the diagonal.
\<close>

theorem initial_mask_self_pairs:
  assumes "steps p = Some []"
    and "1 \<le> i" and "i < length (unit_ids a)"
    and "k < l" and "l < length (unit_ids a)"
  shows "\<not> initial_pair_mask (length (unit_ids a)) ! 0 ! 0
       \<and> initial_pair_mask (length (unit_ids a)) ! i ! i
       \<and> (\<exists>pairs d. get_potential_auto_merge a p = Inr (pairs, d)
             \<and> (unit_ids a ! i, unit_ids a ! i) \<in> set pairs
             \<and> (unit_ids a ! k, unit_ids a ! l) \<in> set pairs)"
proof -
  let ?n = "length (unit_ids a)"
  let ?m = "initial_pair_mask ?n"
  from assms(4,5) have k: "k < ?n" by simp
  from assms(3) have pos: "0 < ?n" by (rule le_less_trans [OF le0])
  have z: "\<not> ?m ! 0 ! 0" using initial_pair_mask_nth [OF pos pos] by simp
  have ii: "?m ! i ! i" using assms(2,3) by (simp add: initial_pair_mask_nth)
  have kl: "?m ! k ! l" using assms(4,5) k by (simp add: initial_pair_mask_nth)
  have "(i, i) \<in> set (np_nonzero ?m)"
    using ii assms(3)
    by (simp add: np_nonzero_iff length_initial_pair_mask length_initial_pair_mask_row)
  then have p1: "(unit_ids a ! i, unit_ids a ! i) \<in> set (potential_merges a ?m)"
    by (force simp: potential_merges_def)
  have "(k, l) \<in> set (np_nonzero ?m)"
    using kl k assms(5)
    by (simp add: np_nonzero_iff length_initial_pair_mask length_initial_pair_mask_row)
  then have p2: "(unit_ids a ! k, unit_ids a ! l) \<in> set (potential_merges a ?m)"
    by (force simp: potential_merges_def)
  from assms(1) have "get_potential_auto_merge a p
      = Inr (potential_merges a ?m, if extra_outputs p then Some Map.empty else None)"
    by (simp add: get_potential_auto_merge_def initial_state_def)
  with z ii p1 p2 show ?thesis by simp
qed

theorem initial_mask_self_pairs_witness:
  "get_potential_auto_merge example_analyzer (default_params\<lparr>steps := Some []\<rparr>)
     = Inr ([(10, 11), (10, 12), (11, 11), (11, 12), (12, 12)], None)
   \<and> \<not> initial_pair_mask 3 ! 0 ! 0 \<and> initial_pair_mask 3 ! 1 ! 1"
proof -
  have s: "steps (default_params\<lparr>steps := Some []\<rparr>) = Some []" by simp
  have n1: "(1::nat) < length (unit_ids example_analyzer)"
    and n2: "(2::nat) < length (unit_ids example_analyzer)"
    by (simp_all add: example_analyzer_def)
  have g: "get_potential_auto_merge example_analyzer (default_params\<lparr>steps := Some []\<rparr>)
     = Inr ([(10, 11), (10, 12), (11, 11), (11, 12), (12, 12)], None)"
    by (simp add: get_potential_auto_merge_def potential_merges_def np_nonzero_def upt3
        initial_state_def initial_pair_mask_def np_triu_arange_def example_analyzer_def)
      (simp add: default_params_def)
  from initial_mask_self_pairs [OF s order_refl n1 _ n2, of 0] g
  show ?thesis by (simp add: example_analyzer_def eval_nat_numeral)
qed


subsection \<open>Stage subsets\<close>

lemma run_step_contaminations:
  assumes "run_step a p stps x s = Inr s'" and "x \<noteq> ''remove_contaminated''"
  shows "contaminations s' = contaminations s"
  using assms
  by (auto simp: run_step_def Let_def split: if_splits sum.splits option.splits prod.splits)

lemma run_step_check_unbound:
  assumes "contaminations s = None" and "''check_increase_score'' \<in> set stps"
  shows "run_step a p stps ''check_increase_score'' s = Inl (UnboundLocalError ''contaminations'')"
  using assms by (simp add: run_step_def)

lemma run_steps_unbound:
  assumes "contaminations s = None" and "''check_increase_score'' \<in> set xs"
    and "''remove_contaminated'' \<notin> set xs" and "''check_increase_score'' \<in> set stps"
  shows "\<exists>e s'. run_steps a p stps xs s = Inl (e, s')"
  using assms
proof (induction xs arbitrary: s)
  case Nil
  then show ?case by simp
next
  case (Cons x xs)
  show ?case
  proof (cases "x \<in> set all_steps")
    case False
    then show ?thesis by simp
  next
    case valid: True
    show ?thesis
    proof (cases "run_step a p stps x s")
      case (Inl e)
      with valid show ?thesis by simp
    next
      case (Inr s')
      have nx: "x \<noteq> ''check_increase_score''"
      proof
        assume "x = ''check_increase_score''"
        with run_step_check_unbound [OF Cons.prems(1) Cons.prems(4), of a p] Inr
        show False by simp
      qed
      from Cons.prems(3) have "x \<noteq> ''remove_contaminated''" by auto
      from run_step_contaminations [OF Inr this] Cons.prems(1)
      have c: "contaminations s' = None" by simp
      from nx Cons.prems(2) have "''check_increase_score'' \<in> set xs" by auto
      from Cons.IH [OF c this _ Cons.prems(4)] Cons.prems(3)
      obtain e s'' where "run_steps a p stps xs s' = Inl (e, s'')" by auto
      with valid Inr show ?thesis by simp
    qed
  qed
qed

text \<open>
  Claim C6 says that every list of recognized stage names runs to completion, in
  particular one with \<open>check_increase_score\<close> and without \<open>remove_contaminated\<close>. The
  code does the opposite: \<open>contaminations\<close> is assigned by \<open>remove_contaminated\<close> only, so
  every such list ends in an exception (the unbound local variable, unless an earlier
  stage raised before).
\<close>

theorem check_increase_score_needs_contaminations:
  assumes "steps p = Some stps" and "''check_increase_score'' \<in> set stps"
    and "''remove_contaminated'' \<notin> set stps"
  shows "\<exists>e s. get_potential_auto_merge a p = Inl (e, s)"
proof -
  have "contaminations (initial_state a) = None" by (simp add: initial_state_def)
  from run_steps_unbound [OF this assms(2,3) assms(2), of a p]
  obtain e s where "run_steps a p stps stps (initial_state a) = Inl (e, s)" by auto
  with assms(1) show ?thesis by (simp add: get_potential_auto_merge_def)
qed

theorem check_increase_score_needs_contaminations_witness:
  "get_potential_auto_merge example_analyzer
     (default_params\<lparr>steps := Some [''check_increase_score'']\<rparr>)
   = Inl (UnboundLocalError ''contaminations'', initial_state example_analyzer)"
proof -
  have s: "steps (default_params\<lparr>steps := Some [''check_increase_score'']\<rparr>)
      = Some [''check_increase_score'']" by simp
  have i: "''check_increase_score'' \<in> set [''check_increase_score'']" by simp
  have r: "''remove_contaminated'' \<notin> set [''check_increase_score'']" by simp
  from check_increase_score_needs_contaminations [OF s i r, of example_analyzer]
  show ?thesis
    by (simp add: get_potential_auto_merge_def all_steps_def run_step_def initial_state_def)
qed

subsection \<open>Unknown stage names\<close>

lemma run_step_executed:
  assumes "run_step a p stps x s = Inr s'" and "x \<in> set all_steps" and "x \<in> set stps"
  shows "executed s' = executed s @ [x]"
  using assms
  by (auto simp: run_step_def all_steps_def Let_def
      split: if_splits sum.splits option.splits prod.splits)

lemma run_steps_executed:
  assumes "run_steps a p stps xs s = Inr s'" and "set xs \<subseteq> set stps"
  shows "executed s' = executed s @ xs"
  using assms
proof (induction xs arbitrary: s)
  case Nil
  then show ?case by simp
next
  case (Cons x xs)
  from Cons.prems(1) have valid: "x \<in> set all_steps"
    by (auto split: if_splits)
  with Cons.prems(1) obtain s1 where s1: "run_step a p stps x s = Inr s1"
    and rest: "run_steps a p stps xs s1 = Inr s'"
    by (auto split: sum.splits)
  from Cons.prems(2) have "x \<in> set stps" "set xs \<subseteq> set stps" by auto
  with run_step_executed [OF s1 valid] Cons.IH [OF rest] show ?case by simp
qed

text \<open>
  Claim C3, as the code has it. The assertion on the stage name is inside the loop: a
  list with an unknown name fails when the loop reaches that name, after the stages
  listed before it have run (or one of them has raised). The metric is checked by the
  assertion at the head of \<open>compute_templates_diff\<close>, before any pair is compared; the
  \<open>template_similarity\<close> stage does not get there, and completes whatever the metric, when
  the analyzer has a template similarity extension.
\<close>

theorem unknown_step_rejected_when_reached:
  assumes "steps p = Some (pre @ bad # rest)" and "bad \<notin> set all_steps"
    and "metric \<notin> set [''l1'', ''l2'', ''cosine'']"
    and "template_similarity_ext a' = Some similarity"
    and "''template_similarity'' \<in> set stps'"
  shows "(case run_steps a p (pre @ bad # rest) pre (initial_state a) of
            Inl f \<Rightarrow> get_potential_auto_merge a p = Inl f
          | Inr s \<Rightarrow> executed s = pre
              \<and> get_potential_auto_merge a p
                  = Inl (AssertionError (bad @ '' is not a valid step''), s))
       \<and> compute_templates_diff n templates_array nc ns pm metric sp
           = Inl (AssertionError ''Not a valid metric!'')
       \<and> (\<exists>s''. run_step a' p' stps' ''template_similarity'' s' = Inr s'')"
proof (intro conjI)
  let ?stps = "pre @ bad # rest"
  show "case run_steps a p ?stps pre (initial_state a) of
            Inl f \<Rightarrow> get_potential_auto_merge a p = Inl f
          | Inr s \<Rightarrow> executed s = pre
              \<and> get_potential_auto_merge a p
                  = Inl (AssertionError (bad @ '' is not a valid step''), s)"
  proof (cases "run_steps a p ?stps pre (initial_state a)")
    case (Inl f)
    with assms(1) show ?thesis
      by (simp add: get_potential_auto_merge_def run_steps_append)
  next
    case (Inr s)
    have "set pre \<subseteq> set ?stps" by auto
    from run_steps_executed [OF Inr this] have "executed s = pre"
      by (simp add: initial_state_def)
    with Inr assms(1,2) show ?thesis
      by (simp add: get_potential_auto_merge_def run_steps_append)
  qed
next
  from assms(3) show "compute_templates_diff n templates_array nc ns pm metric sp
           = Inl (AssertionError ''Not a valid metric!'')"
    by (simp add: compute_templates_diff_def)
next
  from assms(4,5) show "\<exists>s''. run_step a' p' stps' ''template_similarity'' s' = Inr s''"
    by (simp add: run_step_def)
qed

text \<open>
  Claim C3 as stated fails: with the stages \<open>min_spikes\<close>, \<open>bogus\<close> the unknown name is
  rejected only after \<open>min_spikes\<close> has run.
\<close>

theorem unknown_step_counterexample:
  "failure_report (get_potential_auto_merge example_analyzer
      (default_params\<lparr>steps := Some [''min_spikes'', ''bogus'']\<rparr>))
   = Some (AssertionError ''bogus is not a valid step'', [''min_spikes''])"
  by (simp add: failure_report_def get_potential_auto_merge_def all_steps_def run_step_def
      initial_state_def Let_def)

theorem unknown_step_rejected_when_reached_witness:
  "get_potential_auto_merge example_analyzer
      (default_params\<lparr>steps := Some ([''min_spikes''] @ ''bogus'' # [])\<rparr>)
   = Inl (AssertionError ''bogus is not a valid step'',
          \<lparr>pair_mask = [[False, False, True], [False, False, False], [False, False, True]],
           contaminations = None, outs = Map.empty, executed = [''min_spikes'']\<rparr>)
   \<and> compute_templates_diff 3 (\<lambda>u. []) (Some 5) 5 (initial_pair_mask 3) ''l3'' None
       = Inl (AssertionError ''Not a valid metric!'')
   \<and> (\<exists>s''. run_step (example_analyzer\<lparr>template_similarity_ext := Some (\<lambda>i j. 1)\<rparr>)
         (default_params\<lparr>template_metric := ''l3''\<rparr>) [''template_similarity'']
         ''template_similarity'' (initial_state example_analyzer) = Inr s'')"
proof -
  have t: "template_similarity_ext (example_analyzer\<lparr>template_similarity_ext := Some (\<lambda>i j. 1)\<rparr>)
      = Some (\<lambda>i j. 1)" by simp
  have ts: "''template_similarity'' \<in> set [''template_similarity'']" by simp
  have s: "steps (default_params\<lparr>steps := Some ([''min_spikes''] @ ''bogus'' # [])\<rparr>)
      = Some ([''min_spikes''] @ ''bogus'' # [])" by simp
  have b: "''bogus'' \<notin> set all_steps" by (simp add: all_steps_def)
  have m: "''l3'' \<notin> set [''l1'', ''l2'', ''cosine'']" by simp
  have run: "run_steps example_analyzer
      (default_params\<lparr>steps := Some ([''min_spikes''] @ ''bogus'' # [])\<rparr>)
      ([''min_spikes''] @ ''bogus'' # []) [''min_spikes''] (initial_state example_analyzer)
    = Inr \<lparr>pair_mask = [[False, False, True], [False, False, False], [False, False, True]],
          contaminations = None, outs = Map.empty, executed = [''min_spikes'']\<rparr>"
    by (simp add: run_step_def all_steps_def initial_state_def example_analyzer_def
      default_params_def initial_pair_mask_def np_triu_arange_def clear_rows_def clear_cols_def upt3)
  from unknown_step_rejected_when_reached [OF s b m t ts, of example_analyzer 3 "\<lambda>u. []"
      "Some 5" 5 "initial_pair_mask 3" None "default_params\<lparr>template_metric := ''l3''\<rparr>"
      "initial_state example_analyzer"]
  show ?thesis by (simp only: run sum.case) simp
qed

subsection \<open>The quality-score validator\<close>

lemma check_pairs_step:
  "check_pairs a c k ((i, j) # ps) (m, r) =
     (if spec_rejects a c k (i, j)
      then check_pairs a c k ps (m[i := (m ! i)[j := False]], r @ [(unit_ids a ! i, unit_ids a ! j)])
      else check_pairs a c k ps (m, r))"
  by (simp add: spec_rejects_def spec_quality_score_def Let_def)

lemma cleared_entry_nth:
  assumes "i < length m" and "j < length (m ! i)"
  shows "m[i0 := (m ! i0)[j0 := False]] ! i ! j = (m ! i ! j \<and> (i, j) \<noteq> (i0, j0))"
proof (cases "i = i0")
  case True
  with assms show ?thesis by (cases "j = j0") simp_all
next
  case False
  with assms show ?thesis by simp
qed

lemma check_pairs_result:
  assumes "check_pairs a c k ps (m, r) = (m', r')"
  shows "r' = r @ map (\<lambda>(i, j). (unit_ids a ! i, unit_ids a ! j)) (filter (spec_rejects a c k) ps)
       \<and> mask_le m' m
       \<and> (\<forall>i j. i < length m \<longrightarrow> j < length (m ! i) \<longrightarrow>
             m' ! i ! j = (m ! i ! j \<and> \<not> ((i, j) \<in> set ps \<and> spec_rejects a c k (i, j))))"
  using assms
proof (induction ps arbitrary: m r)
  case Nil
  then show ?case by (simp add: mask_le_refl)
next
  case (Cons q ps)
  obtain i0 j0 where q: "q = (i0, j0)" by (cases q)
  show ?case
  proof (cases "spec_rejects a c k (i0, j0)")
    case False
    with Cons.prems have "check_pairs a c k ps (m, r) = (m', r')"
      by (simp add: q check_pairs_step del: check_pairs.simps)
    from Cons.IH [OF this] False show ?thesis
      by (auto simp: q)
  next
    case True
    let ?m1 = "m[i0 := (m ! i0)[j0 := False]]"
    from True Cons.prems
    have "check_pairs a c k ps (?m1, r @ [(unit_ids a ! i0, unit_ids a ! j0)]) = (m', r')"
      by (simp add: q check_pairs_step del: check_pairs.simps)
    note ih = Cons.IH [OF this]
    have le1: "mask_le ?m1 m" by (rule clear_entry_le)
    from ih have r: "r' = r @ map (\<lambda>(i, j). (unit_ids a ! i, unit_ids a ! j))
        (filter (spec_rejects a c k) (q # ps))"
      using True by (simp add: q)
    from ih le1 have le: "mask_le m' m" by (blast intro: mask_le_trans)
    have "m' ! i ! j = (m ! i ! j \<and> \<not> ((i, j) \<in> set (q # ps) \<and> spec_rejects a c k (i, j)))"
      if ij: "i < length m" "j < length (m ! i)" for i j
    proof -
      from ij have l1: "i < length ?m1" by simp
      from ij have l2: "j < length (?m1 ! i)"
        using mask_le_row_length [OF le1 ij(1)] by simp
      from ih l1 l2 have "m' ! i ! j
          = (?m1 ! i ! j \<and> \<not> ((i, j) \<in> set ps \<and> spec_rejects a c k (i, j)))"
        by blast
      with cleared_entry_nth [OF ij, of i0 j0] True show ?thesis
        by (auto simp: q)
    qed
    with r le show ?thesis by blast
  qed
qed

text \<open>
  Claim C2. For every pair that is a candidate when the validator starts, the scores
  \<open>firing_rate * (1 - (k + 1) * contamination)\<close> of the two units and of the merged unit are
  compared; the entry stays True exactly when the merged score is not strictly lower than
  either unit's score, and the list of removed pairs is exactly the list of the
  candidates cleared this way, in matrix order.
\<close>

theorem quality_score_validation:
  assumes "check_improve_contaminations_score a pm contams k = (pm', pairs_removed)"
    and "i < length pm" and "j < length (pm ! i)"
  shows "pm' ! i ! j =
           (pm ! i ! j
            \<and> \<not> (merged_firing_rate a i j * (1 - (k + 1) * merged_contamination a i j)
                    < compute_firing_rates a i * (1 - (k + 1) * contams i)
                 \<or> merged_firing_rate a i j * (1 - (k + 1) * merged_contamination a i j)
                    < compute_firing_rates a j * (1 - (k + 1) * contams j)))
       \<and> pairs_removed
           = map (\<lambda>(i, j). (unit_ids a ! i, unit_ids a ! j))
               (filter (spec_rejects a contams k) (np_nonzero pm))"
proof -
  from assms(1) have "check_pairs a contams k (np_nonzero pm) (pm, []) = (pm', pairs_removed)"
    by (simp add: check_improve_contaminations_score_def)
  from check_pairs_result [OF this] assms(2,3)
  have r: "pairs_removed = map (\<lambda>(i, j). (unit_ids a ! i, unit_ids a ! j))
               (filter (spec_rejects a contams k) (np_nonzero pm))"
    and e: "pm' ! i ! j = (pm ! i ! j
        \<and> \<not> ((i, j) \<in> set (np_nonzero pm) \<and> spec_rejects a contams k (i, j)))"
    by simp_all
  from e assms(2,3) have "pm' ! i ! j = (pm ! i ! j \<and> \<not> spec_rejects a contams k (i, j))"
    by (auto simp: np_nonzero_iff)
  with r show ?thesis
    by (simp add: spec_rejects_def spec_quality_score_def)
qed

lemma example_score_check:
  "check_improve_contaminations_score example_analyzer
     [[False, True, True], [False, False, True], [False, False, False]] (\<lambda>u. 0) (5 / 2)
   = ([[False, False, False], [False, False, True], [False, False, False]], [(10, 11), (10, 12)])"
  by (simp add: check_improve_contaminations_score_def np_nonzero_def upt3 example_analyzer_def)

theorem quality_score_validation_witness:
  "check_improve_contaminations_score example_analyzer
     [[False, True, True], [False, False, True], [False, False, False]] (\<lambda>u. 0) (5 / 2)
   = ([[False, False, False], [False, False, True], [False, False, False]], [(10, 11), (10, 12)])
   \<and> [[False, False, False], [False, False, True], [False, False, False]] ! 0 ! 1
      = ([[False, True, True], [False, False, True], [False, False, False]] ! 0 ! 1
         \<and> \<not> ((2::real) * (1 - (5 / 2 + 1) * 1) < 1 * (1 - (5 / 2 + 1) * 0)
              \<or> (2::real) * (1 - (5 / 2 + 1) * 1) < 1 * (1 - (5 / 2 + 1) * 0)))
   \<and> [(10, 11), (10, 12)]
      = map (\<lambda>(i, j). (unit_ids example_analyzer ! i, unit_ids example_analyzer ! j))
          (filter (spec_rejects example_analyzer (\<lambda>u. 0) (5 / 2))
             (np_nonzero [[False, True, True], [False, False, True], [False, False, False]]))"
proof -
  have i: "0 < length [[False, True, True], [False, False, True], [False, False, False]]"
    by simp
  have j: "1 < length ([[False, True, True], [False, False, True], [False, False, False]] ! 0)"
    by simp
  from quality_score_validation [OF example_score_check i j] example_score_check
  show ?thesis by (simp add: example_analyzer_def)
qed


subsection \<open>The adaptive window\<close>

text \<open>
  The guarded case and a search that succeeds after one halving: the peak at bin 1 sits on
  the value 2, below the threshold 3 and above 3/2.
\<close>

lemma adaptive_window_fallback:
  "sum_list (map abs auto_corr) = 0 \<Longrightarrow>
     get_unit_adaptive_window peaks_of auto_corr threshold = Some 20"
  by (simp add: get_unit_adaptive_window.simps)

lemma adaptive_window_after_one_halving:
  "get_unit_adaptive_window (\<lambda>auto_corr. [1]) [0, 2, 1, 4, 1, 2, 0] 3 = Some 2"
  by (subst get_unit_adaptive_window.simps, simp)+

lemma adaptive_window_returns_only_with_peak:
  assumes "get_unit_adaptive_window fp ac thr = Some w"
  shows "0 < thr \<longrightarrow> sum_list (map abs ac) = 0
           \<or> (\<exists>p\<in>set (fp ac). p < length ac div 2 \<and> 0 < ac ! p)"
proof (rule get_unit_adaptive_window.raw_induct
    [where P = "\<lambda>fp ac thr w. 0 < thr \<longrightarrow> sum_list (map abs ac) = 0
           \<or> (\<exists>p\<in>set (fp ac). p < length ac div 2 \<and> 0 < ac ! p)", OF _ assms])
  fix self :: "(real list \<Rightarrow> nat list) \<Rightarrow> real list \<Rightarrow> real \<Rightarrow> int option"
    and fp ac and thr :: real and w
  assume ih: "\<And>fp ac thr w. self fp ac thr = Some w \<Longrightarrow>
      0 < thr \<longrightarrow> sum_list (map abs ac) = 0
           \<or> (\<exists>p\<in>set (fp ac). p < length ac div 2 \<and> 0 < ac ! p)"
  assume body: "(if sum_list (map abs ac) = 0 then Some 20
      else let peaks = fp ac;
               peaks = filter (\<lambda>p. thr \<le> ac ! p) peaks;
               peaks = filter (\<lambda>p. p < length ac div 2) peaks
           in if peaks = [] then self fp ac (thr / 2)
              else Some (int (length ac div 2) - int (last peaks))) = Some w"
  show "0 < thr \<longrightarrow> sum_list (map abs ac) = 0
           \<or> (\<exists>p\<in>set (fp ac). p < length ac div 2 \<and> 0 < ac ! p)"
  proof (intro impI)
    assume pos: "0 < thr"
    show "sum_list (map abs ac) = 0 \<or> (\<exists>p\<in>set (fp ac). p < length ac div 2 \<and> 0 < ac ! p)"
    proof (cases "sum_list (map abs ac) = 0")
      case True
      then show ?thesis by simp
    next
      case nz: False
      let ?peaks = "filter (\<lambda>p. p < length ac div 2) (filter (\<lambda>p. thr \<le> ac ! p) (fp ac))"
      show ?thesis
      proof (cases "?peaks = []")
        case True
        with body nz have "self fp ac (thr / 2) = Some w" by (simp add: Let_def)
        from ih [OF this] pos nz show ?thesis by simp
      next
        case False
        then have "hd ?peaks \<in> set ?peaks" by (rule hd_in_set)
        then obtain p where "p \<in> set ?peaks" ..
        with pos have "p \<in> set (fp ac) \<and> p < length ac div 2 \<and> 0 < ac ! p" by auto
        then show ?thesis by blast
      qed
    qed
  qed
qed

text \<open>
  Claim C5 says that the search for the adaptive window returns for every correlogram and
  every positive threshold. The code does not: halving a positive threshold keeps it
  positive, so when the correlogram is not identically zero and no peak left of the
  centre sits on a positive correlogram value, every call recurses and none returns.
\<close>

theorem adaptive_window_never_returns:
  assumes "sum_list (map abs auto_corr) \<noteq> 0" and "0 < threshold"
    and "\<forall>p\<in>set (peaks_of auto_corr). p < length auto_corr div 2 \<longrightarrow> auto_corr ! p \<le> 0"
  shows "get_unit_adaptive_window peaks_of auto_corr threshold = None"
proof (cases "get_unit_adaptive_window peaks_of auto_corr threshold")
  case None
  then show ?thesis .
next
  case (Some w)
  from adaptive_window_returns_only_with_peak [OF Some] assms(1,2)
  obtain p where "p \<in> set (peaks_of auto_corr)" "p < length auto_corr div 2" "0 < auto_corr ! p"
    by auto
  with assms(3) show ?thesis by fastforce
qed

theorem adaptive_window_never_returns_witness:
  "get_unit_adaptive_window (\<lambda>auto_corr. []) [1, 1, 1, 1] (1 / 2) = None"
proof -
  have a: "sum_list (map abs [1, 1, 1, 1 :: real]) \<noteq> 0" by simp
  have t: "(0::real) < 1 / 2" by simp
  have p: "\<forall>p\<in>set ((\<lambda>auto_corr. []) [1, 1, 1, 1 :: real]).
      p < length [1, 1, 1, 1 :: real] div 2 \<longrightarrow> [1, 1, 1, 1 :: real] ! p \<le> 0" by simp
  from adaptive_window_never_returns [OF a t p] show ?thesis .
qed

subsection \<open>The correlogram difference\<close>

lemma sequence_errors_nth:
  "sequence_errors xs = Inr vs \<Longrightarrow> k < length xs \<Longrightarrow> xs ! k = Inr (vs ! k)"
proof (induction xs arbitrary: vs k)
  case Nil
  then show ?case by simp
next
  case (Cons x xs)
  then show ?case
    by (cases k) (auto split: sum.splits)
qed

lemma sequence_errors_all_ok:
  "sequence_errors (map (\<lambda>x. Inr (f x)) xs) = Inr (map f xs)"
  by (induction xs) simp_all

lemma np_take_in_range:
  assumes "\<forall>k\<in>set inds. 0 \<le> k \<and> k < int (length xs)"
  shows "np_take xs inds = Inr (map (\<lambda>k. xs ! nat k) inds)"
proof -
  from assms have e: "map (np_index xs) inds = map (\<lambda>k. Inr (xs ! nat k)) inds"
    by (simp add: np_index_def)
  show ?thesis unfolding np_take_def e by (rule sequence_errors_all_ok)
qed

text \<open>The rounding and the normalisation of the code are those of the specification.\<close>

lemma py_round_spec: "py_round x = spec_round x"
proof -
  let ?f = "\<lfloor>x\<rfloor>"
  let ?d = "x - real_of_int ?f"
  have d: "0 \<le> ?d" "?d < 1" by linarith+
  have fr: "frac x = ?d" by (simp add: frac_def)
  have r: "round x = (if ?d < 1 / 2 then ?f else ?f + 1)"
  proof (cases "?d < 1 / 2")
    case True
    have "\<lfloor>x + 1 / 2\<rfloor> = ?f"
    proof (rule floor_unique)
      from d(1) show "real_of_int ?f \<le> x + 1 / 2" by linarith
      from True show "x + 1 / 2 < real_of_int ?f + 1" by linarith
    qed
    with True show ?thesis by (simp add: round_def)
  next
    case False
    have "\<lfloor>x + 1 / 2\<rfloor> = ?f + 1"
    proof (rule floor_unique)
      from False show "real_of_int (?f + 1) \<le> x + 1 / 2" by simp
      from d(2) show "x + 1 / 2 < real_of_int (?f + 1) + 1" by simp
    qed
    with False show ?thesis by (simp add: round_def)
  qed
  show ?thesis
    unfolding py_round_def round_half_even_def spec_round_def Let_def fr r by auto
qed

lemma normalize_correlogram_spec: "normalize_correlogram c = spec_normalized c"
proof (cases "c = []")
  case True
  then show ?thesis by (simp add: normalize_correlogram_def np_mean_def spec_normalized_def)
next
  case False
  then have "fl_div (np_sum c) (real (length c)) = 0 \<longleftrightarrow> np_sum c = 0"
    by (simp add: fl_div_def float64_eq_0_iff)
  with False show ?thesis
    by (simp add: normalize_correlogram_def np_mean_def spec_normalized_def)
qed

lemma length_spec_normalized: "length (spec_normalized c) = length c"
  by (simp add: spec_normalized_def)

lemma sum_abs_diff_maps:
  "sum_abs_diff (map f inds) (map g inds) = np_sum (map (\<lambda>k. \<bar>fl_sub (f k) (g k)\<bar>) inds)"
proof -
  have "map2 (\<lambda>x y. \<bar>fl_sub x y\<bar>) (map f inds) (map g inds)
      = map (\<lambda>k. \<bar>fl_sub (f k) (g k)\<bar>) inds"
    by (induction inds) simp_all
  then show ?thesis by (simp add: sum_abs_diff_def)
qed

lemma correlogram_pair_diff_spec:
  assumes nz: "num_spikes i + num_spikes j \<noteq> 0"
    and w: "w = spec_window (num_spikes i) (win_sizes i) (num_spikes j) (win_sizes j)"
    and wpos: "0 < w"
    and m: "m = int (length (cs i j)) div 2"
    and wm: "w \<le> m"
    and len: "length (cs i i) = length (cs i j)" "length (cs j j) = length (cs i j)"
  shows "correlogram_pair_diff num_spikes cs win_sizes i j
     = Inr (Some (spec_weighted_diff
         (num_spikes i)
         (spec_side_diff (spec_normalized (cs i j)) (spec_normalized (cs i i)) m w)
         (num_spikes j)
         (spec_side_diff (spec_normalized (cs i j)) (spec_normalized (cs j j)) m w)))"
proof -
  let ?inds = "[m - w..m + w - 1]"
  from m wm have hi: "m + w \<le> int (length (cs i j))" by linarith
  have rng: "\<forall>k\<in>set ?inds. 0 \<le> k \<and> k < int (length (spec_normalized (cs u v)))"
    if "length (cs u v) = length (cs i j)" for u v
    using that wm hi by (auto simp: length_spec_normalized)
  have t1: "np_take (spec_normalized (cs i j)) ?inds
      = Inr (map (\<lambda>k. spec_normalized (cs i j) ! nat k) ?inds)"
    by (rule np_take_in_range) (rule rng, simp)
  have t2: "np_take (spec_normalized (cs i i)) ?inds
      = Inr (map (\<lambda>k. spec_normalized (cs i i) ! nat k) ?inds)"
    by (rule np_take_in_range) (rule rng, rule len(1))
  have t3: "np_take (spec_normalized (cs j j)) ?inds
      = Inr (map (\<lambda>k. spec_normalized (cs j j) ! nat k) ?inds)"
    by (rule np_take_in_range) (rule rng, rule len(2))
  from wpos have ne: "?inds \<noteq> []" by simp
  from wpos have l: "real (length ?inds) = real_of_int (2 * w)" by simp
  from w have w': "py_round (fl_div
        (to_float64 (num_spikes i * win_sizes i + num_spikes j * win_sizes j))
        (to_float64 (num_spikes i + num_spikes j))) = w"
    by (simp add: spec_window_def py_round_spec)
  show ?thesis
    unfolding correlogram_pair_diff_def Let_def m [symmetric] w' normalize_correlogram_spec
    using nz ne
    by (simp only: t1 t2 t3 if_False sum.case l sum_abs_diff_maps
        spec_weighted_diff_def spec_side_diff_def)
qed

lemma upt2: "[0..<2] = [0, 1]"
  by (simp add: upt_rec)

lemma example_length: "length (example_correlograms u v) = 6"
  by (simp add: example_correlograms_def)

lemma example_normalize:
  "normalize_correlogram (example_correlograms 0 0) = [0, 1, 2, 2, 1, 0]"
  "normalize_correlogram (example_correlograms 0 (Suc 0)) = [0, 2, 1, 1, 2, 0]"
  "normalize_correlogram (example_correlograms (Suc 0) (Suc 0)) = [1, 1, 1, 1, 1, 1]"
  by (simp_all add: normalize_correlogram_def example_correlograms_def np_mean_def np_sum_def
      pairwise_sum_short float_eval)

lemma example_round:
  "py_round (fl_div (to_float64 4000) (to_float64 200)) = 20"
  "py_round (fl_div (to_float64 500) (to_float64 200)) = 2"
  by (simp_all add: py_round_def float_eval)

lemma example_window_too_wide:
  "correlogram_pair_diff (\<lambda>u. 100) example_correlograms (\<lambda>u. 20) 0 (Suc 0)
     = Inl IndexError"
  by (simp add: correlogram_pair_diff_def example_round example_normalize example_length
      np_take_def np_index_def upto_rec1 Let_def)

text \<open>
  Claim C7 as stated fails: not every still-candidate pair gets the difference the claim
  describes. The window is not checked against the number of bins: with six bins
  (centre bin 3) and the window 20 of both units, which is the fallback of
  \<open>get_unit_adaptive_window\<close>, the bins \<open>-17, \<dots>, 22\<close> are asked for and the call ends in
  an IndexError, with no difference for any pair.
\<close>

theorem correlogram_diff_counterexample:
  "compute_correlogram_diff 2 (\<lambda>u. 100) example_correlograms (\<lambda>u. 20)
      [[False, True], [False, True]] = Inl IndexError"
  by (simp add: compute_correlogram_diff_def upt2 example_window_too_wide)

text \<open>
  Claim C7, as the code has it. The loop visits the candidate pairs \<open>i < j\<close> only (a
  candidate on the diagonal keeps its NaN). For such a pair whose rounded weighted window
  \<open>w\<close> is positive and at most the index \<open>m\<close> of the centre bin, the entry \<open>(i, j)\<close> of the
  matrix \<open>compute_correlogram_diff\<close> returns is the spike-count-weighted average of the
  two per-side mean absolute differences between the normalized cross-correlogram and
  each unit's normalized auto-correlogram over the bins \<open>m - w, \<dots>, m + w - 1\<close>, every
  operation being the float64 one.
\<close>

theorem correlogram_diff_combination:
  assumes "compute_correlogram_diff n num_spikes cs win_sizes pm = Inr corr_diff"
    and "i < j" and "j < n" and "pm ! i ! j"
    and "w = spec_window (num_spikes i) (win_sizes i) (num_spikes j) (win_sizes j)"
    and "0 < w"
    and "m = int (length (cs i j)) div 2"
    and "w \<le> m"
    and "length (cs i i) = length (cs i j)" and "length (cs j j) = length (cs i j)"
  shows "corr_diff ! i ! j
     = Some (spec_weighted_diff
         (num_spikes i)
         (spec_side_diff (spec_normalized (cs i j)) (spec_normalized (cs i i)) m w)
         (num_spikes j)
         (spec_side_diff (spec_normalized (cs i j)) (spec_normalized (cs j j)) m w))"
proof -
  let ?entry = "\<lambda>u1 u2. if u1 < u2 \<and> pm ! u1 ! u2
      then correlogram_pair_diff num_spikes cs win_sizes u1 u2 else Inr None"
  let ?row = "\<lambda>u1. sequence_errors (map (?entry u1) [0..<n])"
  from assms(2,3) have i: "i < n" by simp
  from assms(1) have "sequence_errors (map ?row [0..<n]) = Inr corr_diff"
    by (simp add: compute_correlogram_diff_def)
  from sequence_errors_nth [OF this, of i] i
  have "?row i = Inr (corr_diff ! i)" by (simp cong: if_cong)
  from sequence_errors_nth [OF this, of j] assms(3)
  have "?entry i j = Inr (corr_diff ! i ! j)" by (simp cong: if_cong)
  with assms(2,4)
  have e: "correlogram_pair_diff num_spikes cs win_sizes i j = Inr (corr_diff ! i ! j)"
    by simp
  have nz: "num_spikes i + num_spikes j \<noteq> 0"
  proof
    assume "num_spikes i + num_spikes j = 0"
    with e show False by (simp add: correlogram_pair_diff_def Let_def)
  qed
  from correlogram_pair_diff_spec [OF nz assms(5-10)] e show ?thesis by simp
qed

text \<open>
  A run on correlograms whose means are not 1, with a tie in the window: both units have
  100 spikes, the windows are 2 and 3, and \<open>round(2.5)\<close> is 2. The normalized correlograms
  are \<open>0, 1, 2, 2, 1, 0\<close> and \<open>0, 2, 1, 1, 2, 0\<close> and \<open>1, 1, 1, 1, 1, 1\<close>; over the bins
  \<open>1, \<dots>, 4\<close> the two sides differ by 1 and by 1/2 on average.
\<close>

lemma example_window: "spec_window 100 2 100 3 = 2"
  by (simp add: spec_window_def spec_round_def round_def frac_def float_eval)

lemma example_normalized:
  "spec_normalized (example_correlograms 0 0) = [0, 1, 2, 2, 1, 0]"
  "spec_normalized (example_correlograms 0 1) = [0, 2, 1, 1, 2, 0]"
  "spec_normalized (example_correlograms 1 1) = [1, 1, 1, 1, 1, 1]"
  by (simp_all add: spec_normalized_def example_correlograms_def np_sum_def pairwise_sum_short
      float_eval)

lemma example_side_diffs:
  "spec_side_diff [0, 2, 1, 1, 2, 0] [0, 1, 2, 2, 1, 0] 3 2 = 1"
  "spec_side_diff [0, 2, 1, 1, 2, 0] [1, 1, 1, 1, 1, 1] 3 2 = 1 / 2"
   apply (simp_all add: spec_side_diff_def upto_rec1)
   apply (simp_all add: np_sum_def pairwise_sum_short float_eval)
  done

lemma example_correlogram_diff:
  "compute_correlogram_diff 2 (\<lambda>u. 100) example_correlograms
      (\<lambda>u. if u = 0 then 2 else 3) [[False, True], [False, True]]
   = Inr [[None, Some (3 / 4)], [None, None]]"
  apply (simp add: compute_correlogram_diff_def upt2 correlogram_pair_diff_def example_round
      example_normalize example_length np_take_def np_index_def sum_abs_diff_def upto_rec1
      Let_def)
  apply (simp add: np_sum_def pairwise_sum_short float_eval)
  done

theorem correlogram_diff_combination_witness:
  "compute_correlogram_diff 2 (\<lambda>u. 100) example_correlograms
      (\<lambda>u. if u = 0 then 2 else 3) [[False, True], [False, True]]
     = Inr [[None, Some (3 / 4)], [None, None]]
   \<and> spec_window 100 2 100 3 = 2
   \<and> spec_side_diff (spec_normalized (example_correlograms 0 1))
        (spec_normalized (example_correlograms 0 0)) 3 2 = 1
   \<and> spec_side_diff (spec_normalized (example_correlograms 0 1))
        (spec_normalized (example_correlograms 1 1)) 3 2 = 1 / 2
   \<and> [[None, Some (3 / 4)], [None, None]] ! 0 ! 1
     = Some (spec_weighted_diff 100
         (spec_side_diff (spec_normalized (example_correlograms 0 1))
            (spec_normalized (example_correlograms 0 0)) 3 2)
         100
         (spec_side_diff (spec_normalized (example_correlograms 0 1))
            (spec_normalized (example_correlograms 1 1)) 3 2))"
proof -
  have h1: "(0::nat) < 1" and h2: "(1::nat) < 2"
    and h3: "[[False, True], [False, True]] ! 0 ! 1"
    and h5: "(0::int) < 2" and h7: "(2::int) \<le> 3"
    by simp_all
  have h4: "2 = spec_window 100 (if (0::nat) = 0 then 2 else 3)
      100 (if (1::nat) = 0 then 2 else 3)"
    by (simp add: example_window)
  have h6: "3 = int (length (example_correlograms 0 1)) div 2"
    by (simp add: example_correlograms_def)
  have h8: "length (example_correlograms 0 0) = length (example_correlograms 0 1)"
    and h9: "length (example_correlograms 1 1) = length (example_correlograms 0 1)"
    by (simp_all add: example_correlograms_def)
  have s1: "spec_side_diff (spec_normalized (example_correlograms 0 1))
      (spec_normalized (example_correlograms 0 0)) 3 2 = 1"
    by (simp only: example_normalized example_side_diffs)
  have s2: "spec_side_diff (spec_normalized (example_correlograms 0 1))
      (spec_normalized (example_correlograms 1 1)) 3 2 = 1 / 2"
    by (simp only: example_normalized example_side_diffs)
  from correlogram_diff_combination [OF example_correlogram_diff h1 h2 h3 h4 h5 h6 h7 h8 h9]
  have "[[None, Some (3 / 4)], [None, None]] ! 0 ! 1
     = Some (spec_weighted_diff 100
         (spec_side_diff (spec_normalized (example_correlograms 0 1))
            (spec_normalized (example_correlograms 0 0)) 3 2)
         100
         (spec_side_diff (spec_normalized (example_correlograms 0 1))
            (spec_normalized (example_correlograms 1 1)) 3 2))" .
  with example_correlogram_diff example_window s1 s2
  show ?thesis by (intro conjI)
qed

subsection \<open>The template difference\<close>



































end
